theory Spec2Isabelle
  imports Complex_Main "HOL-Library.List_Lexorder" "HOL-Library.Char_ord"
begin

section \<open>JavaScript values, as the handlers see them\<close>

text \<open>
  The handlers of \<^verbatim>\<open>server.js\<close> work on what \<^verbatim>\<open>JSON.parse\<close> and the body parsers
  hand them: trees of primitives, arrays and objects. An object is a finite map from
  property names to values; a property that is not there reads as \<^verbatim>\<open>undefined\<close>.
  Numbers are the rationals the finite doubles denote, with \<^verbatim>\<open>NaN\<close> apart.
\<close>

datatype jsval =
    JUndefined
  | JNull
  | JBool bool
  | JNum rat
  | JNaN
  | JStr string
  | JArr "jsval list"
  | JObj "string \<Rightarrow> jsval option"

type_synonym obj = "string \<Rightarrow> jsval option"

text \<open>
  What a handler can throw. \<open>Unmodelled\<close> is not a JavaScript exception: it marks the
  one shape the embedding of the PUT handler does not follow (a plain object as the
  location history, where the handler indexes by \<^verbatim>\<open>length - 1\<close>).
\<close>

datatype error = TypeError | SyntaxError | RangeError | Unmodelled

text \<open>\<^verbatim>\<open>o.k\<close> on an object known to be one.\<close>

definition get :: "obj \<Rightarrow> string \<Rightarrow> jsval" where
  "get m k = (case m k of None \<Rightarrow> JUndefined | Some v \<Rightarrow> v)"

text \<open>\<^verbatim>\<open>if (v)\<close>: JavaScript truthiness.\<close>

fun truthy :: "jsval \<Rightarrow> bool" where
  "truthy JUndefined = False"
| "truthy JNull = False"
| "truthy (JBool b) = b"
| "truthy (JNum n) = (n \<noteq> 0)"
| "truthy JNaN = False"
| "truthy (JStr s) = (s \<noteq> [])"
| "truthy (JArr xs) = True"
| "truthy (JObj m) = True"

text \<open>
  \<^verbatim>\<open>a === b\<close>. Every comparison in the source is between a value of the request (or a
  literal) and a value of the stored document, or a literal: two arrays or objects there
  are never the same reference, so they are never strictly equal.
\<close>

fun strict_eq :: "jsval \<Rightarrow> jsval \<Rightarrow> bool" where
  "strict_eq JUndefined JUndefined = True"
| "strict_eq JNull JNull = True"
| "strict_eq (JBool a) (JBool b) = (a = b)"
| "strict_eq (JNum a) (JNum b) = (a = b)"
| "strict_eq (JStr a) (JStr b) = (a = b)"
| "strict_eq _ _ = False"

text \<open>
  \<^verbatim>\<open>v.k\<close> for the property names the source reads (\<^verbatim>\<open>fase\<close>, \<^verbatim>\<open>sector\<close>,
  \<^verbatim>\<open>responsible\<close>, \<^verbatim>\<open>startDate\<close>, \<^verbatim>\<open>contractDate\<close>, \<^verbatim>\<open>history\<close>): none of them is a
  property of an array, a string, a number or a boolean, so they read as \<^verbatim>\<open>undefined\<close>
  there (\<open>field\<close>); on \<^verbatim>\<open>undefined\<close> and \<^verbatim>\<open>null\<close> the access throws (\<open>getprop\<close>).
\<close>

definition field :: "jsval \<Rightarrow> string \<Rightarrow> jsval" where
  "field v k = (case v of JObj m \<Rightarrow> get m k | _ \<Rightarrow> JUndefined)"

definition getprop :: "jsval \<Rightarrow> string \<Rightarrow> error + jsval" where
  "getprop v k = (if v = JUndefined \<or> v = JNull then Inl TypeError else Inr (field v k))"

text \<open>
  \<^verbatim>\<open>e.endDate = now\<close> under \<^verbatim>\<open>if (e)\<close>: an object gets the property; a primitive is left as
  it is (the falsy ones by the guard, the others because an assignment to a property of a
  primitive is dropped in non-strict code); on an array the property would not be
  serialised.
\<close>

fun set_endDate :: "string \<Rightarrow> jsval \<Rightarrow> jsval" where
  "set_endDate now (JObj m) = JObj (m(''endDate'' \<mapsto> JStr now))"
| "set_endDate now e = e"

text \<open>The array after \<^verbatim>\<open>const last = xs[xs.length - 1]; if (last) last.endDate = now\<close>.\<close>

definition close_last :: "string \<Rightarrow> jsval list \<Rightarrow> jsval list" where
  "close_last now xs = (if xs = [] then [] else butlast xs @ [set_endDate now (last xs)])"

text \<open>
  \<^verbatim>\<open>h[h.length - 1]\<close> for a truthy \<open>h\<close>: the last element of an array, \<^verbatim>\<open>undefined\<close> on an
  empty one; the last character of a string; \<^verbatim>\<open>undefined\<close> on a number or a boolean (their
  \<^verbatim>\<open>length\<close> is \<^verbatim>\<open>undefined\<close>). A plain object is outside the embedding.
\<close>

fun last_elem :: "jsval \<Rightarrow> error + jsval" where
  "last_elem (JArr xs) = Inr (if xs = [] then JUndefined else last xs)"
| "last_elem (JStr s) = Inr (if s = [] then JUndefined else JStr [last s])"
| "last_elem (JObj m) = Inl Unmodelled"
| "last_elem _ = Inr JUndefined"

text \<open>
  The JavaScript built-ins the handlers call are parameters of the embedding:
  \<^verbatim>\<open>JSON.parse\<close> on a string (\<open>None\<close> when it throws a SyntaxError), and \<^verbatim>\<open>parseFloat\<close>.
\<close>

record builtins =
  JSON_parse :: "string \<Rightarrow> jsval option"
  parseFloat :: "jsval \<Rightarrow> jsval"

section \<open>The PUT handler with the \<^verbatim>\<open>logHistory\<close> flag\<close>

text \<open>
  \<^verbatim>\<open>app.put('/api/processes/:id')\<close> of \<^verbatim>\<open>src/unnamed/part_000\<close>, lines 136 to 187, from the
  copy of the stored process to the merged object that replaces it. Each block of the
  handler is one definition; \<open>applyUpdate\<close> runs them in the order of the source, and
  an exception in one block ends the request with nothing written.
\<close>

text \<open>Lines 140 and 141: \<^verbatim>\<open>if (!existingProcess.history) existingProcess.history = []\<close>.\<close>

definition ensureHistories :: "obj \<Rightarrow> obj" where
  "ensureHistories existingProcess =
     (let e1 = (if \<not> truthy (get existingProcess ''history'')
                then existingProcess(''history'' \<mapsto> JArr []) else existingProcess)
      in if \<not> truthy (get e1 ''locationHistory'')
         then e1(''locationHistory'' \<mapsto> JArr []) else e1)"

text \<open>Lines 144 and 145: \<^verbatim>\<open>if (updatedData.value) updatedData.value = parseFloat(...)\<close>.\<close>

definition parseNumericFields :: "builtins \<Rightarrow> obj \<Rightarrow> obj" where
  "parseNumericFields env updatedData =
     (let u1 = (if truthy (get updatedData ''value'')
                then updatedData(''value'' \<mapsto> parseFloat env (get updatedData ''value''))
                else updatedData)
      in if truthy (get u1 ''purchasedValue'')
         then u1(''purchasedValue'' \<mapsto> parseFloat env (get u1 ''purchasedValue''))
         else u1)"

text \<open>Line 148: \<^verbatim>\<open>updatedData.logHistory === 'true' || updatedData.logHistory === true\<close>.\<close>

definition logHistory_of :: "obj \<Rightarrow> bool" where
  "logHistory_of updatedData =
     (strict_eq (get updatedData ''logHistory'') (JStr ''true'')
      \<or> strict_eq (get updatedData ''logHistory'') (JBool True))"

definition phaseEntry :: "jsval \<Rightarrow> string \<Rightarrow> jsval" where
  "phaseEntry fase now =
     JObj (Map.empty(''fase'' \<mapsto> fase, ''startDate'' \<mapsto> JStr now, ''endDate'' \<mapsto> JNull))"

definition locationEntry :: "jsval \<Rightarrow> jsval \<Rightarrow> string \<Rightarrow> jsval" where
  "locationEntry sector responsible now =
     JObj (Map.empty(''sector'' \<mapsto> sector, ''responsible'' \<mapsto> responsible,
                     ''startDate'' \<mapsto> JStr now, ''endDate'' \<mapsto> JNull))"

text \<open>
  Lines 149 to 153. \<^verbatim>\<open>existingProcess.history\<close> is truthy here; when it is not an array
  the call of \<^verbatim>\<open>push\<close> throws.
\<close>

definition trackPhaseChange :: "bool \<Rightarrow> obj \<Rightarrow> obj \<Rightarrow> string \<Rightarrow> error + obj" where
  "trackPhaseChange logHistory existingProcess updatedData now =
     (if logHistory \<and> truthy (get updatedData ''fase'')
         \<and> \<not> strict_eq (get updatedData ''fase'') (get existingProcess ''fase'')
      then (case get existingProcess ''history'' of
              JArr xs \<Rightarrow>
                Inr (existingProcess(''history'' \<mapsto>
                       JArr (close_last now xs @ [phaseEntry (get updatedData ''fase'') now])))
            | _ \<Rightarrow> Inl TypeError)
      else Inr existingProcess)"

text \<open>Lines 156 to 158: \<^verbatim>\<open>JSON.parse\<close> of a \<^verbatim>\<open>location\<close> that arrived as text.\<close>

definition decodeLocation :: "builtins \<Rightarrow> obj \<Rightarrow> error + obj" where
  "decodeLocation env updatedData =
     (case get updatedData ''location'' of
        JStr s \<Rightarrow> (case JSON_parse env s of
                     None \<Rightarrow> Inl SyntaxError
                   | Some v \<Rightarrow> Inr (updatedData(''location'' \<mapsto> v)))
      | _ \<Rightarrow> Inr updatedData)"

text \<open>
  \<^verbatim>\<open>newLocation.sector !== lastLocationEntry.sector || newLocation.responsible !==
  lastLocationEntry.responsible\<close>, for a truthy \<open>newLocation\<close>: reading a property of an
  \<^verbatim>\<open>undefined\<close> or \<^verbatim>\<open>null\<close> \<open>lastLocationEntry\<close> throws.
\<close>

definition locationDiffers :: "jsval \<Rightarrow> jsval \<Rightarrow> error + bool" where
  "locationDiffers newLocation lastLocationEntry =
     (case getprop lastLocationEntry ''sector'' of
        Inl e \<Rightarrow> Inl e
      | Inr ls \<Rightarrow>
          (if \<not> strict_eq (field newLocation ''sector'') ls then Inr True
           else (case getprop lastLocationEntry ''responsible'' of
                   Inl e \<Rightarrow> Inl e
                 | Inr lr \<Rightarrow> Inr (\<not> strict_eq (field newLocation ''responsible'') lr))))"

text \<open>
  Lines 161 to 171. \<open>lastLocationEntry\<close> is read before the condition, and used only
  when \<open>logHistory\<close> holds and a location was supplied. When the location history is
  not an array the call of \<^verbatim>\<open>push\<close> throws.
\<close>

definition trackLocationChange :: "bool \<Rightarrow> obj \<Rightarrow> obj \<Rightarrow> string \<Rightarrow> error + obj" where
  "trackLocationChange logHistory existingProcess updatedData now =
     (let newLocation = get updatedData ''location'' in
      if logHistory \<and> truthy newLocation
      then (case last_elem (get existingProcess ''locationHistory'') of
              Inl e \<Rightarrow> Inl e
            | Inr lastLocationEntry \<Rightarrow>
               (case locationDiffers newLocation lastLocationEntry of
                  Inl e \<Rightarrow> Inl e
                | Inr differs \<Rightarrow>
                   (if differs
                    then (case get existingProcess ''locationHistory'' of
                            JArr xs \<Rightarrow>
                              Inr (existingProcess(''locationHistory'' \<mapsto>
                                     JArr (close_last now xs @
                                       [locationEntry (field newLocation ''sector'')
                                          (field newLocation ''responsible'') now])))
                          | _ \<Rightarrow> Inl TypeError)
                    else Inr existingProcess)))
      else Inr existingProcess)"

text \<open>
  Lines 174 to 179. \<^verbatim>\<open>existingProcess.attachments || []\<close> is spread into the array of
  line 186: an array gives its elements, a string its characters, any other truthy
  value is not iterable. \<open>files\<close> is \<^verbatim>\<open>req.files\<close> (\<open>None\<close> when the request had none).
\<close>

definition existingAttachments :: "obj \<Rightarrow> error + jsval list" where
  "existingAttachments existingProcess =
     (let a = get existingProcess ''attachments'' in
      if \<not> truthy a then Inr []
      else case a of
             JArr xs \<Rightarrow> Inr xs
           | JStr s \<Rightarrow> Inr (map (\<lambda>c. JStr [c]) s)
           | _ \<Rightarrow> Inl TypeError)"

definition attachmentOf :: "obj \<Rightarrow> jsval" where
  "attachmentOf file =
     JObj (Map.empty(''filename'' \<mapsto> get file ''filename'',
                     ''originalname'' \<mapsto> get file ''originalname'',
                     ''path'' \<mapsto> get file ''path''))"

definition newAttachments :: "obj list option \<Rightarrow> jsval list" where
  "newAttachments files = (case files of None \<Rightarrow> [] | Some fs \<Rightarrow> map attachmentOf fs)"

text \<open>
  Lines 182 to 187: \<^verbatim>\<open>{ ...existingProcess, ...updatedData, id: processId, attachments:
  [...existingAttachments, ...newAttachments] }\<close>.
\<close>

definition mergeProcess :: "obj \<Rightarrow> obj \<Rightarrow> obj list option \<Rightarrow> jsval \<Rightarrow> error + obj" where
  "mergeProcess existingProcess updatedData files processId =
     (case existingAttachments existingProcess of
        Inl e \<Rightarrow> Inl e
      | Inr old \<Rightarrow>
          Inr ((existingProcess ++ updatedData)
                 (''id'' \<mapsto> processId,
                  ''attachments'' \<mapsto> JArr (old @ newAttachments files))))"

definition applyUpdate ::
  "builtins \<Rightarrow> obj \<Rightarrow> obj \<Rightarrow> obj list option \<Rightarrow> jsval \<Rightarrow> string \<Rightarrow> error + obj" where
  "applyUpdate env stored body files processId now =
     (let existingProcess = ensureHistories stored;
          updatedData = parseNumericFields env body;
          logHistory = logHistory_of updatedData
      in (case trackPhaseChange logHistory existingProcess updatedData now of
            Inl e \<Rightarrow> Inl e
          | Inr existingProcess1 \<Rightarrow>
             (case decodeLocation env updatedData of
                Inl e \<Rightarrow> Inl e
              | Inr updatedData1 \<Rightarrow>
                 (case trackLocationChange logHistory existingProcess1 updatedData1 now of
                    Inl e \<Rightarrow> Inl e
                  | Inr existingProcess2 \<Rightarrow>
                      mergeProcess existingProcess2 updatedData1 files processId))))"

section \<open>The PUT handler of \<^verbatim>\<open>src/server.js\<close>\<close>

text \<open>
  \<^verbatim>\<open>app.put('/api/processes/:id')\<close> of \<^verbatim>\<open>src/server.js\<close>, lines 139 to 188. This handler
  has no \<^verbatim>\<open>logHistory\<close> flag: it tracks every change, creates a missing history only
  inside the branch that appends to it, and compares the supplied location with
  \<^verbatim>\<open>existingProcess.location\<close>.
\<close>





section \<open>The POST handlers\<close>

text \<open>
  \<open>falsy_or v d\<close> is \<^verbatim>\<open>v || d\<close>.
\<close>

definition falsy_or :: "jsval \<Rightarrow> jsval \<Rightarrow> jsval" where
  "falsy_or v d = (if truthy v then v else d)"

text \<open>
  Lines 113 to 118 of \<^verbatim>\<open>part_000\<close> (110 to 115 of \<^verbatim>\<open>server.js\<close>): the seed of the location
  history reads \<^verbatim>\<open>newProcess.location.sector\<close> and \<^verbatim>\<open>newProcess.location.responsible\<close>.
\<close>

definition seedLocationHistory :: "obj \<Rightarrow> string \<Rightarrow> error + obj" where
  "seedLocationHistory newProcess now =
     (case getprop (get newProcess ''location'') ''sector'' of
        Inl e \<Rightarrow> Inl e
      | Inr s \<Rightarrow>
         (case getprop (get newProcess ''location'') ''responsible'' of
            Inl e \<Rightarrow> Inl e
          | Inr r \<Rightarrow> Inr (newProcess(''locationHistory'' \<mapsto> JArr [locationEntry s r now]))))"

text \<open>
  \<^verbatim>\<open>app.post('/api/processes')\<close> of \<^verbatim>\<open>src/unnamed/part_000\<close>, lines 85 to 121.
  \<open>processes\<close> is the stored array, \<open>id_now\<close> what \<^verbatim>\<open>Date.now()\<close> returned, \<open>now\<close>
  the ISO string of the request's date. The result is the array after \<^verbatim>\<open>push\<close>, with the
  new process.
\<close>

definition createProcess ::
  "builtins \<Rightarrow> jsval list \<Rightarrow> obj \<Rightarrow> obj list option \<Rightarrow> int \<Rightarrow> string
     \<Rightarrow> error + (jsval list \<times> obj)" where
  "createProcess env processes body files id_now now =
     (let n1 = body(''id'' \<mapsto> JNum (of_int id_now));
          n2 = n1(''value'' \<mapsto> parseFloat env (falsy_or (get n1 ''value'') (JNum 0)));
          n3 = n2(''purchasedValue'' \<mapsto>
                    parseFloat env (falsy_or (get n2 ''purchasedValue'') (JNum 0)))
      in (case decodeLocation env n3 of
            Inl e \<Rightarrow> Inl e
          | Inr n4 \<Rightarrow>
             (let n5 = n4(''attachments'' \<mapsto> JArr (newAttachments files),
                          ''creationDate'' \<mapsto> JStr now,
                          ''history'' \<mapsto> JArr [phaseEntry (get n4 ''fase'') now])
              in (case seedLocationHistory n5 now of
                    Inl e \<Rightarrow> Inl e
                  | Inr newProcess \<Rightarrow> Inr (processes @ [JObj newProcess], newProcess)))))"

text \<open>
  \<^verbatim>\<open>app.post('/api/processes')\<close> of \<^verbatim>\<open>src/server.js\<close>, lines 79 to 118: \<^verbatim>\<open>value\<close> is parsed
  unguarded, and there is no \<^verbatim>\<open>purchasedValue\<close>.
\<close>

definition createProcess_server_js ::
  "builtins \<Rightarrow> jsval list \<Rightarrow> obj \<Rightarrow> obj list option \<Rightarrow> int \<Rightarrow> string
     \<Rightarrow> error + (jsval list \<times> obj)" where
  "createProcess_server_js env processes body files id_now now =
     (let n1 = body(''id'' \<mapsto> JNum (of_int id_now));
          n2 = n1(''value'' \<mapsto> parseFloat env (get n1 ''value''))
      in (case decodeLocation env n2 of
            Inl e \<Rightarrow> Inl e
          | Inr n4 \<Rightarrow>
             (let n5 = n4(''attachments'' \<mapsto> JArr (newAttachments files),
                          ''creationDate'' \<mapsto> JStr now,
                          ''history'' \<mapsto> JArr [phaseEntry (get n4 ''fase'') now])
              in (case seedLocationHistory n5 now of
                    Inl e \<Rightarrow> Inl e
                  | Inr newProcess \<Rightarrow> Inr (processes @ [JObj newProcess], newProcess)))))"

section \<open>The repair script\<close>

text \<open>
  \<^verbatim>\<open>ajustarDatasDeContratacao\<close> of \<^verbatim>\<open>src/ajustar_historico.js\<close>, the loop of lines 31 to 58
  over \<^verbatim>\<open>data.processes\<close>. The JavaScript built-ins it calls are parameters:
  \<open>Date_toISOString s\<close> is \<^verbatim>\<open>new Date(s).toISOString()\<close>, \<open>None\<close> when the date is invalid
  and \<^verbatim>\<open>toISOString\<close> throws a RangeError; \<open>ToString\<close> and \<open>ToNumber\<close> are the
  conversions of the language, used where the script meets a value that is not yet a
  string or a number.
\<close>

record script_builtins =
  Date_toISOString :: "string \<Rightarrow> string option"
  ToString :: "jsval \<Rightarrow> string"
  ToNumber :: "jsval \<Rightarrow> jsval"

text \<open>
  Line 47: \<^verbatim>\<open>new Date(processo.contractDate + 'T12:00:00Z').toISOString()\<close>. The operator
  \<^verbatim>\<open>+\<close> with a string literal concatenates, after converting a left operand that is not
  a string.
\<close>

definition concat_text :: "script_builtins \<Rightarrow> jsval \<Rightarrow> string \<Rightarrow> string" where
  "concat_text js v lit = (case v of JStr s \<Rightarrow> s | _ \<Rightarrow> ToString js v) @ lit"

definition dataContratacaoISO :: "script_builtins \<Rightarrow> jsval \<Rightarrow> string option" where
  "dataContratacaoISO js contractDate =
     Date_toISOString js (concat_text js contractDate ''T12:00:00Z'')"

text \<open>
  The number a value stands for in \<^verbatim>\<open>length > 0\<close> and \<^verbatim>\<open>length - 1\<close>: itself for a number,
  \<^verbatim>\<open>NaN\<close> for \<^verbatim>\<open>undefined\<close> and for a plain object, 0 for \<^verbatim>\<open>null\<close>, 0 or 1 for a boolean,
  and the built-in conversion for a string or an array.
\<close>

definition toNumber :: "script_builtins \<Rightarrow> jsval \<Rightarrow> jsval" where
  "toNumber js v =
     (case v of
        JNum r \<Rightarrow> JNum r
      | JNaN \<Rightarrow> JNaN
      | JUndefined \<Rightarrow> JNaN
      | JNull \<Rightarrow> JNum 0
      | JBool b \<Rightarrow> JNum (if b then 1 else 0)
      | JObj m \<Rightarrow> JNaN
      | _ \<Rightarrow> ToNumber js v)"

text \<open>
  On a plain object \<open>h\<close> used as the history: the property key of
  \<^verbatim>\<open>h[h.length - 1]\<close> when \<^verbatim>\<open>h.length > 0\<close> holds, \<open>None\<close> when it does not.
\<close>

definition lastKey :: "script_builtins \<Rightarrow> obj \<Rightarrow> string option" where
  "lastKey js h =
     (case toNumber js (get h ''length'') of
        JNum r \<Rightarrow> (if r > 0 then Some (ToString js (JNum (r - 1))) else None)
      | _ \<Rightarrow> None)"

text \<open>
  \<^verbatim>\<open>processo.history && processo.history.length > 0\<close>, then
  \<^verbatim>\<open>processo.history[processo.history.length - 1]\<close>: \<open>None\<close> when the condition is
  false, the element read when it holds. An array gives its last element, a string its
  last character, a plain object the property at \<open>lastKey\<close>; a number or a boolean has
  no \<^verbatim>\<open>length\<close>.
\<close>

fun ultimoHistorico :: "script_builtins \<Rightarrow> jsval \<Rightarrow> jsval option" where
  "ultimoHistorico js (JArr xs) = (if xs = [] then None else Some (last xs))"
| "ultimoHistorico js (JStr s) = (if s = [] then None else Some (JStr [last s]))"
| "ultimoHistorico js (JObj h) =
     (case lastKey js h of None \<Rightarrow> None | Some k \<Rightarrow> Some (get h k))"
| "ultimoHistorico js _ = None"

text \<open>
  \<^verbatim>\<open>ultimoHistorico.startDate = dataContratacaoISO\<close>, on the element that was read: the
  process with that element's \<^verbatim>\<open>startDate\<close> overwritten.
\<close>

definition set_startDate :: "string \<Rightarrow> jsval \<Rightarrow> jsval" where
  "set_startDate d e = (case e of JObj m \<Rightarrow> JObj (m(''startDate'' \<mapsto> JStr d)) | _ \<Rightarrow> e)"

definition set_last_startDate :: "script_builtins \<Rightarrow> string \<Rightarrow> jsval \<Rightarrow> jsval" where
  "set_last_startDate js d processo =
     (case processo of
        JObj m \<Rightarrow>
          (case get m ''history'' of
             JArr xs \<Rightarrow>
               (if xs = [] then processo
                else JObj (m(''history'' \<mapsto> JArr (butlast xs @ [set_startDate d (last xs)]))))
           | JObj h \<Rightarrow>
               (case lastKey js h of
                  None \<Rightarrow> processo
                | Some k \<Rightarrow>
                    JObj (m(''history'' \<mapsto> JObj (h(k \<mapsto> set_startDate d (get h k))))))
           | _ \<Rightarrow> processo)
      | _ \<Rightarrow> processo)"

text \<open>
  The callback of \<^verbatim>\<open>forEach\<close>, lines 34 to 58: the process after the call, and whether
  \<^verbatim>\<open>processosAjustados++\<close> ran.
\<close>

definition ajustarProcesso :: "script_builtins \<Rightarrow> jsval \<Rightarrow> error + (jsval \<times> bool)" where
  "ajustarProcesso js processo =
     (case getprop processo ''fase'' of
        Inl e \<Rightarrow> Inl e
      | Inr fase \<Rightarrow>
         (if strict_eq fase (JStr ''Contratado'') \<and> truthy (field processo ''contractDate'')
             \<and> truthy (field processo ''history'')
          then (case ultimoHistorico js (field processo ''history'') of
                  None \<Rightarrow> Inr (processo, False)
                | Some ultimo \<Rightarrow>
                   (case dataContratacaoISO js (field processo ''contractDate'') of
                      None \<Rightarrow> Inl RangeError
                    | Some d \<Rightarrow>
                       (case getprop ultimo ''fase'' of
                          Inl e \<Rightarrow> Inl e
                        | Inr ufase \<Rightarrow>
                           (if strict_eq ufase (JStr ''Contratado'')
                               \<and> \<not> strict_eq (field ultimo ''startDate'') (JStr d)
                            then Inr (set_last_startDate js d processo, True)
                            else Inr (processo, False)))))
          else Inr (processo, False)))"

text \<open>
  \<^verbatim>\<open>data.processes.forEach\<close> with the counter \<^verbatim>\<open>processosAjustados\<close>: an exception in the
  callback ends the script before anything is written.
\<close>

fun ajustarProcessos ::
  "script_builtins \<Rightarrow> jsval list \<Rightarrow> nat \<Rightarrow> error + (jsval list \<times> nat)" where
  "ajustarProcessos js [] processosAjustados = Inr ([], processosAjustados)"
| "ajustarProcessos js (processo # rest) processosAjustados =
     (case ajustarProcesso js processo of
        Inl e \<Rightarrow> Inl e
      | Inr (processo', ajustado) \<Rightarrow>
         (case ajustarProcessos js rest
                 (if ajustado then processosAjustados + 1 else processosAjustados) of
            Inl e \<Rightarrow> Inl e
          | Inr (rest', n) \<Rightarrow> Inr (processo' # rest', n)))"

definition ajustarDatasDeContratacao ::
  "script_builtins \<Rightarrow> jsval list \<Rightarrow> error + (jsval list \<times> nat)" where
  "ajustarDatasDeContratacao js processes = ajustarProcessos js processes 0"

section \<open>The properties, in the terms of the specification\<close>

text \<open>
  The phase history and the location history of a process as sequences: the elements of
  the array, and the empty sequence when the field is absent.
\<close>

definition hist_seq :: "jsval \<Rightarrow> jsval list" where
  "hist_seq v = (case v of JArr xs \<Rightarrow> xs | _ \<Rightarrow> [])"

definition history_of :: "obj \<Rightarrow> jsval list" where
  "history_of p = hist_seq (get p ''history'')"

definition locationHistory_of :: "obj \<Rightarrow> jsval list" where
  "locationHistory_of p = hist_seq (get p ''locationHistory'')"

text \<open>An entry is open when its \<^verbatim>\<open>endDate\<close> is \<^verbatim>\<open>null\<close>.\<close>

definition open_entry :: "jsval \<Rightarrow> bool" where
  "open_entry e = (field e ''endDate'' = JNull)"

text \<open>
  The open-interval invariant: exactly one entry of the sequence is open, and it is the
  last element.
\<close>

definition open_interval :: "jsval list \<Rightarrow> bool" where
  "open_interval xs = (length (filter open_entry xs) = 1 \<and> xs \<noteq> [] \<and> open_entry (last xs))"

text \<open>
  \<open>strip k v\<close> forgets the property \<open>k\<close> of an object: two values that agree after
  \<open>strip k\<close> differ in that property at most.
\<close>

definition strip :: "string \<Rightarrow> jsval \<Rightarrow> jsval" where
  "strip k v = (case v of JObj m \<Rightarrow> JObj (m(k := None)) | _ \<Rightarrow> v)"

text \<open>
  \<open>extends xs ys\<close>: the sequence \<open>ys\<close> is \<open>xs\<close> grown at its end, every entry of \<open>xs\<close>
  before its last identical in \<open>ys\<close>, and the last entry of \<open>xs\<close> changed in its
  \<^verbatim>\<open>endDate\<close> at most.
\<close>

definition extends :: "jsval list \<Rightarrow> jsval list \<Rightarrow> bool" where
  "extends xs ys =
     (length xs \<le> length ys
      \<and> take (length xs - 1) ys = butlast xs
      \<and> (xs = [] \<or> strip ''endDate'' (ys ! (length xs - 1)) = strip ''endDate'' (last xs)))"

text \<open>
  A sequence of PUT requests on one stored process: each request has its body, its files
  and its clock. A request that throws writes nothing, and the next one finds the
  process as it was.
\<close>

record request =
  request_body :: obj
  request_files :: "obj list option"
  request_now :: string

fun applyUpdates :: "builtins \<Rightarrow> jsval \<Rightarrow> obj \<Rightarrow> request list \<Rightarrow> obj" where
  "applyUpdates env processId stored [] = stored"
| "applyUpdates env processId stored (r # rs) =
     applyUpdates env processId
       (case applyUpdate env stored (request_body r) (request_files r) processId
               (request_now r) of
          Inl e \<Rightarrow> stored
        | Inr p \<Rightarrow> p) rs"

text \<open>
  The well-formedness invariants 1 to 3 of the data model, as the specification words
  them: each history is non-empty and its last entry carries the current phase (the
  current sector and responsible); every entry before the last has an \<^verbatim>\<open>endDate\<close> that is
  a timestamp not before its \<^verbatim>\<open>startDate\<close> (ISO timestamps, compared as strings).
\<close>

definition closed_entry :: "jsval \<Rightarrow> bool" where
  "closed_entry e =
     (case field e ''startDate'' of
        JStr s \<Rightarrow> (case field e ''endDate'' of JStr t \<Rightarrow> s \<le> t | _ \<Rightarrow> False)
      | _ \<Rightarrow> False)"

definition wellFormed :: "obj \<Rightarrow> bool" where
  "wellFormed p =
     (history_of p \<noteq> []
      \<and> field (last (history_of p)) ''fase'' = get p ''fase''
      \<and> locationHistory_of p \<noteq> []
      \<and> field (last (locationHistory_of p)) ''sector'' = field (get p ''location'') ''sector''
      \<and> field (last (locationHistory_of p)) ''responsible''
          = field (get p ''location'') ''responsible''
      \<and> list_all closed_entry (butlast (history_of p))
      \<and> list_all closed_entry (butlast (locationHistory_of p)))"

text \<open>
  The repair pass, as the specification words it. A process needs the repair when its
  current phase is \<^verbatim>\<open>'Contratado'\<close> (the label the specification renders as "Contracted"),
  its \<^verbatim>\<open>contractDate\<close> is present, its phase history is non-empty, the last entry's
  phase is \<^verbatim>\<open>'Contratado'\<close> and the last entry's \<^verbatim>\<open>startDate\<close> differs from the canonical
  timestamp. The canonical timestamp is the \<^verbatim>\<open>contractDate\<close> anchored to midday UTC (the
  date followed by \<^verbatim>\<open>T12:00:00Z\<close>) in the ISO form the \<^verbatim>\<open>Date\<close> built-in renders. The repair
  overwrites that \<^verbatim>\<open>startDate\<close> with the canonical timestamp.
\<close>

definition canonicalTimestamp :: "script_builtins \<Rightarrow> jsval \<Rightarrow> string option" where
  "canonicalTimestamp js p =
     Date_toISOString js (concat_text js (field p ''contractDate'') ''T12:00:00Z'')"

definition needsRepair :: "script_builtins \<Rightarrow> jsval \<Rightarrow> bool" where
  "needsRepair js p =
     (strict_eq (field p ''fase'') (JStr ''Contratado'')
      \<and> truthy (field p ''contractDate'')
      \<and> (case ultimoHistorico js (field p ''history'') of
            Some lastEntry \<Rightarrow>
              strict_eq (field lastEntry ''fase'') (JStr ''Contratado'')
              \<and> (case canonicalTimestamp js p of
                    Some d \<Rightarrow> \<not> strict_eq (field lastEntry ''startDate'') (JStr d)
                  | None \<Rightarrow> False)
          | None \<Rightarrow> False))"

definition repaired :: "script_builtins \<Rightarrow> jsval \<Rightarrow> jsval" where
  "repaired js p =
     (case canonicalTimestamp js p of
        Some d \<Rightarrow> set_last_startDate js d p
      | None \<Rightarrow> p)"

text \<open>
  The processes on which the callback of the script cannot throw: objects (or primitives,
  which it skips) whose history does not end in \<^verbatim>\<open>undefined\<close> or \<^verbatim>\<open>null\<close>, and whose
  \<^verbatim>\<open>contractDate\<close>, when present, gives a date the \<^verbatim>\<open>Date\<close> built-in accepts.
\<close>

definition repairable :: "script_builtins \<Rightarrow> jsval \<Rightarrow> bool" where
  "repairable js p =
     (case p of
        JUndefined \<Rightarrow> False
      | JNull \<Rightarrow> False
      | JObj m \<Rightarrow>
          ultimoHistorico js (get m ''history'') \<noteq> Some JUndefined
          \<and> ultimoHistorico js (get m ''history'') \<noteq> Some JNull
          \<and> (\<not> truthy (get m ''contractDate'') \<or> canonicalTimestamp js p \<noteq> None)
      | _ \<Rightarrow> True)"

text \<open>
  Two values of a \<^verbatim>\<open>history\<close> field that differ in the \<^verbatim>\<open>startDate\<close> of the last entry at
  most: arrays of one length with the same entries before the last, or plain objects
  with the same properties but the one at \<open>lastKey\<close>; in both the last entries agree
  but for \<^verbatim>\<open>startDate\<close>.
\<close>

definition same_but_last_startDate :: "script_builtins \<Rightarrow> jsval \<Rightarrow> jsval \<Rightarrow> bool" where
  "same_but_last_startDate js h h' =
     (case h of
        JArr xs \<Rightarrow>
          (case h' of
             JArr ys \<Rightarrow>
               length ys = length xs \<and> butlast ys = butlast xs
               \<and> strip ''startDate'' (last ys) = strip ''startDate'' (last xs)
           | _ \<Rightarrow> False)
      | JObj m \<Rightarrow>
          (case lastKey js m of
             None \<Rightarrow> h' = h
           | Some k \<Rightarrow>
               (case h' of
                  JObj m' \<Rightarrow>
                    m'(k := None) = m(k := None)
                    \<and> strip ''startDate'' (get m' k) = strip ''startDate'' (get m k)
                | _ \<Rightarrow> False))
      | _ \<Rightarrow> h' = h)"

text \<open>A field of the process a handler returned.\<close>

definition result_field :: "error + obj \<Rightarrow> string \<Rightarrow> error + jsval" where
  "result_field res k = (case res of Inl e \<Rightarrow> Inl e | Inr p \<Rightarrow> Inr (get p k))"

text \<open>
  \<^verbatim>\<open>updatedData.location\<close> after lines 156 to 158, when \<^verbatim>\<open>JSON.parse\<close> did not throw.
\<close>

definition newLocation_of :: "builtins \<Rightarrow> obj \<Rightarrow> jsval" where
  "newLocation_of env updatedData =
     (case get updatedData ''location'' of
        JStr s \<Rightarrow> (case JSON_parse env s of Some v \<Rightarrow> v | None \<Rightarrow> JUndefined)
      | v \<Rightarrow> v)"

text \<open>What a POST left behind: the number of stored processes, and a field of the new one.\<close>

definition stored_after :: "error + (jsval list \<times> obj) \<Rightarrow> error + nat" where
  "stored_after res = (case res of Inl e \<Rightarrow> Inl e | Inr (processes, p) \<Rightarrow> Inr (length processes))"

definition created_field :: "error + (jsval list \<times> obj) \<Rightarrow> string \<Rightarrow> error + jsval" where
  "created_field res k = (case res of Inl e \<Rightarrow> Inl e | Inr (processes, p) \<Rightarrow> Inr (get p k))"

section \<open>Concrete inputs\<close>

text \<open>
  The built-ins on the inputs of the examples below: \<^verbatim>\<open>JSON.parse\<close> on three texts,
  \<^verbatim>\<open>parseFloat\<close> on a number and on two numerals, and the canonical timestamp of a calendar
  date \<^verbatim>\<open>YYYY-MM-DD\<close>.
\<close>

definition env_example :: builtins where
  \<open>env_example =
     \<lparr> JSON_parse = (\<lambda>s.
          if s = ''{"sector":"B","responsible":"Y"}''
          then Some (JObj (Map.empty(''sector'' \<mapsto> JStr ''B'', ''responsible'' \<mapsto> JStr ''Y'')))
          else if s = ''{}'' then Some (JObj Map.empty)
          else if s = ''null'' then Some JNull
          else None),
       parseFloat = (\<lambda>v.
          case v of
            JNum n \<Rightarrow> JNum n
          | JStr s \<Rightarrow> (if s = ''12.5'' then JNum (25 / 2) else if s = ''3'' then JNum 3 else JNaN)
          | _ \<Rightarrow> JNaN) \<rparr>\<close>

text \<open>
  The built-ins of the script on the inputs of the examples: the \<^verbatim>\<open>Date\<close> built-in on a
  calendar date followed by \<^verbatim>\<open>T12:00:00Z\<close> renders the same instant with milliseconds,
  and the conversions on the numbers 0 and 1 and the string \<^verbatim>\<open>'1'\<close>.
\<close>

definition js_example :: script_builtins where
  "js_example =
     \<lparr> Date_toISOString = (\<lambda>s.
          if s = ''2024-03-15T12:00:00Z'' then Some ''2024-03-15T12:00:00.000Z'' else None),
       ToString = (\<lambda>v.
          if v = JNum 0 then ''0'' else if v = JNum 1 then ''1'' else ''NaN''),
       ToNumber = (\<lambda>v. if v = JStr ''1'' then JNum 1 else JNaN) \<rparr>"

text \<open>A process as \<^verbatim>\<open>createProcess\<close> leaves it, in phase \<^verbatim>\<open>Draft\<close> at sector A.\<close>

definition process_example :: obj where
  "process_example =
     Map.empty(
       ''id'' \<mapsto> JNum 1,
       ''fase'' \<mapsto> JStr ''Draft'',
       ''value'' \<mapsto> JNum 5,
       ''location'' \<mapsto> JObj (Map.empty(''sector'' \<mapsto> JStr ''A'', ''responsible'' \<mapsto> JStr ''X'')),
       ''history'' \<mapsto> JArr [phaseEntry (JStr ''Draft'') ''t0''],
       ''locationHistory'' \<mapsto> JArr [locationEntry (JStr ''A'') (JStr ''X'') ''t0''])"

text \<open>
  The process of the specification's repair example: phase \<^verbatim>\<open>Contratado\<close>, contract date
  2024-03-15, and a last history entry that starts the evening before.
\<close>

definition contracted_example :: jsval where
  "contracted_example =
     JObj (Map.empty(
       ''id'' \<mapsto> JNum 7,
       ''fase'' \<mapsto> JStr ''Contratado'',
       ''contractDate'' \<mapsto> JStr ''2024-03-15'',
       ''history'' \<mapsto> JArr [
          JObj (Map.empty(''fase'' \<mapsto> JStr ''Contratado'',
                          ''startDate'' \<mapsto> JStr ''2024-03-14T23:00:00.000Z'',
                          ''endDate'' \<mapsto> JNull))]))"

text \<open>
  The same process with its history as a plain object with a \<^verbatim>\<open>length\<close> and the entry at
  the key \<^verbatim>\<open>0\<close>.
\<close>

definition arraylike_example :: jsval where
  "arraylike_example =
     JObj (Map.empty(
       ''id'' \<mapsto> JNum 8,
       ''fase'' \<mapsto> JStr ''Contratado'',
       ''contractDate'' \<mapsto> JStr ''2024-03-15'',
       ''history'' \<mapsto> JObj (Map.empty(
          ''length'' \<mapsto> JNum 1,
          ''0'' \<mapsto> JObj (Map.empty(''fase'' \<mapsto> JStr ''Contratado'',
                          ''startDate'' \<mapsto> JStr ''2024-03-14T23:00:00.000Z'',
                          ''endDate'' \<mapsto> JNull))))))"

definition repair_examples :: "jsval list" where
  "repair_examples = [contracted_example, arraylike_example, JObj process_example]"

text \<open>Request bodies for the PUT handler.\<close>

definition update_review :: obj where
  "update_review = Map.empty(''logHistory'' \<mapsto> JStr ''true'', ''fase'' \<mapsto> JStr ''Review'')"

definition update_override :: obj where
  "update_override =
     Map.empty(''logHistory'' \<mapsto> JBool True, ''fase'' \<mapsto> JStr ''Review'', ''history'' \<mapsto> JArr [])"

definition update_silent :: obj where
  "update_silent = Map.empty(''fase'' \<mapsto> JStr ''Review'', ''value'' \<mapsto> JStr ''12.5'')"

definition update_silent_override :: obj where
  "update_silent_override = Map.empty(''fase'' \<mapsto> JStr ''Review'', ''history'' \<mapsto> JArr [])"


definition update_move :: obj where
  \<open>update_move =
     Map.empty(''logHistory'' \<mapsto> JStr ''true'',
       ''location'' \<mapsto> JStr ''{"sector":"B","responsible":"Y"}'')\<close>


text \<open>A stored process from before the histories existed.\<close>

definition bare_example :: obj where
  "bare_example = Map.empty(''id'' \<mapsto> JNum 1, ''fase'' \<mapsto> JStr ''Draft'')"

definition update_empty_value :: obj where
  "update_empty_value = Map.empty(''value'' \<mapsto> JStr [])"

text \<open>Request bodies for the POST handler: the second has a location without fields.\<close>

definition body_example :: obj where
  "body_example =
     Map.empty(''fase'' \<mapsto> JStr ''Draft'', ''value'' \<mapsto> JStr ''12.5'',
       ''location'' \<mapsto> JObj (Map.empty(''sector'' \<mapsto> JStr ''A'', ''responsible'' \<mapsto> JStr ''X'')))"

definition body_no_sector :: obj where
  "body_no_sector = Map.empty(''fase'' \<mapsto> JStr ''Draft'', ''location'' \<mapsto> JStr ''{}'')"

definition body_no_location :: obj where
  "body_no_location = Map.empty(''fase'' \<mapsto> JStr ''Draft'')"

text \<open>Requests, for sequences of them.\<close>

definition request_review :: request where
  "request_review =
     \<lparr> request_body = update_review, request_files = None, request_now = ''t1'' \<rparr>"

definition request_move :: request where
  "request_move =
     \<lparr> request_body = update_move, request_files = None, request_now = ''t2'' \<rparr>"

definition request_override :: request where
  "request_override =
     \<lparr> request_body = update_override, request_files = None, request_now = ''t1'' \<rparr>"

section \<open>Lemmas about the embedding\<close>

subsection \<open>The blocks of the PUT handler\<close>

lemma get_fun_upd: "get (m(k \<mapsto> v)) k' = (if k' = k then v else get m k')"
  by (simp add: get_def)

lemma truthy_get_dom: "truthy (get m k) \<Longrightarrow> k \<in> dom m"
  by (auto simp: get_def split: option.splits)

lemma get_cong_key: "m' k = m k \<Longrightarrow> get m' k = get m k"
  by (simp add: get_def)

lemma ensureHistories_other:
  "k \<noteq> ''history'' \<Longrightarrow> k \<noteq> ''locationHistory'' \<Longrightarrow> ensureHistories ex k = ex k"
  by (simp add: ensureHistories_def Let_def)

lemma ensureHistories_history:
  "get (ensureHistories ex) ''history'' =
     (if truthy (get ex ''history'') then get ex ''history'' else JArr [])"
  by (simp add: ensureHistories_def Let_def get_def)

lemma ensureHistories_locationHistory:
  "get (ensureHistories ex) ''locationHistory'' =
     (if truthy (get ex ''locationHistory'') then get ex ''locationHistory'' else JArr [])"
  by (simp add: ensureHistories_def Let_def get_def)

lemma parseNumericFields_other:
  "k \<noteq> ''value'' \<Longrightarrow> k \<noteq> ''purchasedValue'' \<Longrightarrow> parseNumericFields env upd k = upd k"
  by (simp add: parseNumericFields_def Let_def)

lemma parseNumericFields_dom: "dom (parseNumericFields env upd) = dom upd"
  by (auto simp: parseNumericFields_def Let_def dest: truthy_get_dom split: if_splits)

lemma parseNumericFields_value:
  "get (parseNumericFields env upd) ''value'' =
     (if truthy (get upd ''value'') then parseFloat env (get upd ''value'') else get upd ''value'')"
  by (simp add: parseNumericFields_def Let_def get_def)

lemma parseNumericFields_purchasedValue:
  "get (parseNumericFields env upd) ''purchasedValue'' =
     (if truthy (get upd ''purchasedValue'') then parseFloat env (get upd ''purchasedValue'')
      else get upd ''purchasedValue'')"
  by (simp add: parseNumericFields_def Let_def get_def)

lemma logHistory_of_parseNumericFields:
  "logHistory_of (parseNumericFields env upd) = logHistory_of upd"
proof -
  have "get (parseNumericFields env upd) ''logHistory'' = get upd ''logHistory''"
    by (rule get_cong_key) (simp add: parseNumericFields_other)
  then show ?thesis by (simp add: logHistory_of_def)
qed

lemma trackPhaseChange_other:
  "trackPhaseChange lg ex upd now = Inr ex' \<Longrightarrow> k \<noteq> ''history'' \<Longrightarrow> ex' k = ex k"
  by (auto simp: trackPhaseChange_def split: if_splits jsval.splits)

lemma trackPhaseChange_history:
  "trackPhaseChange lg ex upd now = Inr ex' \<Longrightarrow>
     get ex' ''history'' =
       (if lg \<and> truthy (get upd ''fase'') \<and> \<not> strict_eq (get upd ''fase'') (get ex ''fase'')
        then JArr (close_last now (hist_seq (get ex ''history'')) @ [phaseEntry (get upd ''fase'') now])
        else get ex ''history'')"
  by (auto simp: trackPhaseChange_def hist_seq_def get_def split: if_splits jsval.splits)

lemma decodeLocation_other:
  "decodeLocation env upd = Inr upd' \<Longrightarrow> k \<noteq> ''location'' \<Longrightarrow> upd' k = upd k"
  by (auto simp: decodeLocation_def split: jsval.splits option.splits)

lemma decodeLocation_dom: "decodeLocation env upd = Inr upd' \<Longrightarrow> dom upd' = dom upd"
  by (auto simp: decodeLocation_def get_def split: jsval.splits option.splits if_splits)

lemma trackLocationChange_other:
  "trackLocationChange lg ex upd now = Inr ex' \<Longrightarrow> k \<noteq> ''locationHistory'' \<Longrightarrow> ex' k = ex k"
  by (auto simp: trackLocationChange_def Let_def split: if_splits jsval.splits sum.splits)

lemma mergeProcess_other:
  "mergeProcess ex upd files pid = Inr r \<Longrightarrow> k \<noteq> ''id'' \<Longrightarrow> k \<noteq> ''attachments'' \<Longrightarrow>
     r k = (ex ++ upd) k"
  by (auto simp: mergeProcess_def split: sum.splits)

lemma applyUpdateE:
  assumes "applyUpdate env ex upd files pid now = Inr r"
  obtains e1 u1 e2 where
    "trackPhaseChange (logHistory_of upd) (ensureHistories ex) (parseNumericFields env upd) now = Inr e1"
    "decodeLocation env (parseNumericFields env upd) = Inr u1"
    "trackLocationChange (logHistory_of upd) e1 u1 now = Inr e2"
    "mergeProcess e2 u1 files pid = Inr r"
  using assms
  by (auto simp: applyUpdate_def Let_def logHistory_of_parseNumericFields split: sum.splits)


lemma hist_seq_falsy: "\<not> truthy v \<Longrightarrow> hist_seq v = []"
  by (cases v) (simp_all add: hist_seq_def)

lemma hist_seq_ensured:
  "hist_seq (if truthy v then v else JArr []) = hist_seq v"
  by (simp add: hist_seq_falsy) (simp add: hist_seq_def)

lemma locationDiffers_Inr:
  "locationDiffers nl le = Inr b \<Longrightarrow>
     le \<noteq> JUndefined \<and> le \<noteq> JNull
     \<and> b = (\<not> strict_eq (field nl ''sector'') (field le ''sector'')
            \<or> \<not> strict_eq (field nl ''responsible'') (field le ''responsible''))"
  by (auto simp: locationDiffers_def getprop_def split: if_splits)

lemma trackLocationChange_array:
  assumes "trackLocationChange lg ex u now = Inr ex'" and "get ex ''locationHistory'' = JArr xs"
  shows "get ex' ''locationHistory'' =
     (if lg \<and> truthy (get u ''location'')
         \<and> (\<not> strict_eq (field (get u ''location'') ''sector'') (field (last xs) ''sector'')
            \<or> \<not> strict_eq (field (get u ''location'') ''responsible'')
                 (field (last xs) ''responsible''))
      then JArr (close_last now xs @
             [locationEntry (field (get u ''location'') ''sector'')
                (field (get u ''location'') ''responsible'') now])
      else JArr xs)"
    and "lg \<and> truthy (get u ''location'') \<Longrightarrow> xs \<noteq> [] \<and> last xs \<noteq> JUndefined \<and> last xs \<noteq> JNull"
  using assms
  by (auto simp: trackLocationChange_def Let_def get_def
      split: if_splits sum.splits dest!: locationDiffers_Inr)

lemma trackLocationChange_seq:
  assumes "trackLocationChange lg ex u now = Inr ex'"
  shows "get ex' ''locationHistory'' = get ex ''locationHistory''
     \<or> (\<exists>xs e. get ex ''locationHistory'' = JArr xs
           \<and> get ex' ''locationHistory'' = JArr (close_last now xs @ [e]))"
  using assms
  by (auto simp: trackLocationChange_def Let_def get_def
      split: if_splits sum.splits jsval.splits)

lemma trackPhaseChange_seq:
  assumes "trackPhaseChange lg ex u now = Inr ex'"
  shows "get ex' ''history'' = get ex ''history''
     \<or> (\<exists>xs e. get ex ''history'' = JArr xs
           \<and> get ex' ''history'' = JArr (close_last now xs @ [e]))"
  using assms
  by (auto simp: trackPhaseChange_def get_def split: if_splits jsval.splits)


lemma decodeLocation_location:
  "decodeLocation env upd = Inr upd' \<Longrightarrow> get upd' ''location'' = newLocation_of env upd"
  by (auto simp: decodeLocation_def newLocation_of_def get_def split: jsval.splits option.splits)

lemma newLocation_of_parseNumericFields:
  "newLocation_of env (parseNumericFields env upd) = newLocation_of env upd"
proof -
  have "get (parseNumericFields env upd) ''location'' = get upd ''location''"
    by (rule get_cong_key) (simp add: parseNumericFields_other)
  then show ?thesis by (simp add: newLocation_of_def)
qed

lemma applyUpdate_history:
  assumes res: "applyUpdate env ex upd files pid now = Inr r" and nk: "''history'' \<notin> dom upd"
  shows "get r ''history'' =
     (if logHistory_of upd \<and> truthy (get upd ''fase'')
         \<and> \<not> strict_eq (get upd ''fase'') (get ex ''fase'')
      then JArr (close_last now (history_of ex) @ [phaseEntry (get upd ''fase'') now])
      else if truthy (get ex ''history'') then get ex ''history'' else JArr [])"
proof -
  from res obtain e1 u1 e2 where
    b1: "trackPhaseChange (logHistory_of upd) (ensureHistories ex) (parseNumericFields env upd) now = Inr e1" and
    b2: "decodeLocation env (parseNumericFields env upd) = Inr u1" and
    b3: "trackLocationChange (logHistory_of upd) e1 u1 now = Inr e2" and
    b4: "mergeProcess e2 u1 files pid = Inr r"
    by (rule applyUpdateE)
  have "dom u1 = dom upd"
    using decodeLocation_dom[OF b2] by (simp add: parseNumericFields_dom)
  with nk have u1: "u1 ''history'' = None" by auto
  have "r ''history'' = (e2 ++ u1) ''history''"
    by (rule mergeProcess_other[OF b4]) simp_all
  also have "\<dots> = e2 ''history''" using u1 by (simp add: map_add_def)
  also have "\<dots> = e1 ''history''" by (rule trackLocationChange_other[OF b3]) simp
  finally have r: "get r ''history'' = get e1 ''history''" by (rule get_cong_key)
  have f1: "get (parseNumericFields env upd) ''fase'' = get upd ''fase''"
    by (rule get_cong_key) (simp add: parseNumericFields_other)
  have f2: "get (ensureHistories ex) ''fase'' = get ex ''fase''"
    by (rule get_cong_key) (simp add: ensureHistories_other)
  show ?thesis
    unfolding r trackPhaseChange_history[OF b1] f1 f2 ensureHistories_history history_of_def
    by (simp add: hist_seq_ensured)
qed

lemma applyUpdate_locationHistory:
  assumes res: "applyUpdate env ex upd files pid now = Inr r"
    and nk: "''locationHistory'' \<notin> dom upd"
    and arr: "get ex ''locationHistory'' = JArr xs"
  shows "get r ''locationHistory'' =
     (if logHistory_of upd \<and> truthy (newLocation_of env upd)
         \<and> (\<not> strict_eq (field (newLocation_of env upd) ''sector'') (field (last xs) ''sector'')
            \<or> \<not> strict_eq (field (newLocation_of env upd) ''responsible'')
                 (field (last xs) ''responsible''))
      then JArr (close_last now xs @
             [locationEntry (field (newLocation_of env upd) ''sector'')
                (field (newLocation_of env upd) ''responsible'') now])
      else JArr xs)"
proof -
  from res obtain e1 u1 e2 where
    b1: "trackPhaseChange (logHistory_of upd) (ensureHistories ex) (parseNumericFields env upd) now = Inr e1" and
    b2: "decodeLocation env (parseNumericFields env upd) = Inr u1" and
    b3: "trackLocationChange (logHistory_of upd) e1 u1 now = Inr e2" and
    b4: "mergeProcess e2 u1 files pid = Inr r"
    by (rule applyUpdateE)
  have "dom u1 = dom upd"
    using decodeLocation_dom[OF b2] by (simp add: parseNumericFields_dom)
  with nk have u1: "u1 ''locationHistory'' = None" by auto
  have "r ''locationHistory'' = (e2 ++ u1) ''locationHistory''"
    by (rule mergeProcess_other[OF b4]) simp_all
  also have "\<dots> = e2 ''locationHistory''" using u1 by (simp add: map_add_def)
  finally have r: "get r ''locationHistory'' = get e2 ''locationHistory''" by (rule get_cong_key)
  have "e1 ''locationHistory'' = ensureHistories ex ''locationHistory''"
    by (rule trackPhaseChange_other[OF b1]) simp
  then have "get e1 ''locationHistory'' = get (ensureHistories ex) ''locationHistory''"
    by (rule get_cong_key)
  then have e1: "get e1 ''locationHistory'' = JArr xs"
    by (simp add: ensureHistories_locationHistory arr)
  have nl: "get u1 ''location'' = newLocation_of env upd"
    using decodeLocation_location[OF b2] by (simp add: newLocation_of_parseNumericFields)
  show ?thesis
    unfolding r trackLocationChange_array(1)[OF b3 e1] nl by simp
qed

subsection \<open>Open intervals and growing sequences\<close>

lemma hist_seq_JArr: "hist_seq (JArr xs) = xs"
  by (simp add: hist_seq_def)

lemma hist_seq_nonempty: "hist_seq v \<noteq> [] \<Longrightarrow> v = JArr (hist_seq v)"
  by (cases v) (simp_all add: hist_seq_def)

lemma open_entry_obj: "open_entry e \<Longrightarrow> \<exists>m. e = JObj m \<and> get m ''endDate'' = JNull"
  by (cases e) (simp_all add: open_entry_def field_def)

lemma not_open_set_endDate: "open_entry e \<Longrightarrow> \<not> open_entry (set_endDate now e)"
  by (cases e) (simp_all add: open_entry_def field_def get_fun_upd)

lemma open_phaseEntry: "open_entry (phaseEntry f now)"
  by (simp add: open_entry_def phaseEntry_def field_def get_fun_upd)

lemma open_locationEntry: "open_entry (locationEntry s r now)"
  by (simp add: open_entry_def locationEntry_def field_def get_fun_upd)

lemma open_interval_butlast:
  assumes "open_interval xs"
  shows "filter open_entry (butlast xs) = []"
proof -
  from assms have ne: "xs \<noteq> []" and l: "open_entry (last xs)"
    and c: "length (filter open_entry xs) = 1"
    by (simp_all add: open_interval_def)
  from ne have "xs = butlast xs @ [last xs]" by simp
  then have "filter open_entry xs = filter open_entry (butlast xs) @ [last xs]"
    using l by (metis filter.simps(1,2) filter_append)
  with c show ?thesis by simp
qed

lemma open_interval_close_append:
  assumes "open_interval xs" and "open_entry e"
  shows "open_interval (close_last now xs @ [e])"
proof -
  from assms(1) have ne: "xs \<noteq> []" and l: "open_entry (last xs)"
    by (simp_all add: open_interval_def)
  have "filter open_entry (close_last now xs) = []"
    using ne open_interval_butlast[OF assms(1)] not_open_set_endDate[OF l]
    by (simp add: close_last_def)
  with assms(2) show ?thesis by (simp add: open_interval_def)
qed

lemma strip_set_endDate: "strip ''endDate'' (set_endDate now e) = strip ''endDate'' e"
  by (cases e) (simp_all add: strip_def)

lemma extends_refl: "extends xs xs"
  by (cases "xs = []") (simp_all add: extends_def butlast_conv_take last_conv_nth)

lemma length_close_last: "length (close_last now xs) = length xs"
  by (simp add: close_last_def)

lemma extends_close_append: "extends xs (close_last now xs @ [e])"
proof (cases "xs = []")
  case True
  then show ?thesis by (simp add: extends_def)
next
  case False
  then have "close_last now xs = butlast xs @ [set_endDate now (last xs)]"
    by (simp add: close_last_def)
  with False show ?thesis
    by (simp add: extends_def nth_append strip_set_endDate)
qed

lemma extends_trans:
  assumes xy: "extends xs ys" and yz: "extends ys zs"
  shows "extends xs zs"
proof (cases "xs = []")
  case True
  then show ?thesis by (simp add: extends_def)
next
  case False
  from xy yz have len: "length xs \<le> length ys" "length ys \<le> length zs"
    by (simp_all add: extends_def)
  with False have yne: "ys \<noteq> []" by auto
  from xy have t1: "take (length xs - 1) ys = butlast xs" by (simp add: extends_def)
  from yz have t2: "take (length ys - 1) zs = butlast ys" by (simp add: extends_def)
  from xy False have s1: "strip ''endDate'' (ys ! (length xs - 1)) = strip ''endDate'' (last xs)"
    by (simp add: extends_def)
  from yz yne have s2: "strip ''endDate'' (zs ! (length ys - 1)) = strip ''endDate'' (last ys)"
    by (simp add: extends_def)
  have "take (length xs - 1) zs = take (length xs - 1) (take (length ys - 1) zs)"
    using len by (simp add: min_def)
  also have "\<dots> = take (length xs - 1) (butlast ys)" by (simp only: t2)
  also have "\<dots> = take (length xs - 1) ys"
    using len by (simp add: butlast_conv_take min_def)
  finally have a: "take (length xs - 1) zs = butlast xs" using t1 by simp
  have b: "strip ''endDate'' (zs ! (length xs - 1)) = strip ''endDate'' (last xs)"
  proof (cases "length xs = length ys")
    case True
    with s1 s2 yne show ?thesis by (simp add: last_conv_nth)
  next
    case neq: False
    with len False have lt: "length xs - 1 < length ys - 1" by (cases xs) auto
    have "zs ! (length xs - 1) = take (length ys - 1) zs ! (length xs - 1)"
      using lt by simp
    also have "\<dots> = butlast ys ! (length xs - 1)" by (simp only: t2)
    also have "\<dots> = ys ! (length xs - 1)" using lt by (simp add: nth_butlast)
    finally show ?thesis using s1 by simp
  qed
  from len a b show ?thesis by (simp add: extends_def)
qed

subsection \<open>The PUT handler as a whole\<close>

lemma applyUpdate_history_of:
  assumes "applyUpdate env ex upd files pid now = Inr r" and "''history'' \<notin> dom upd"
  shows "history_of r =
     (if logHistory_of upd \<and> truthy (get upd ''fase'')
         \<and> \<not> strict_eq (get upd ''fase'') (get ex ''fase'')
      then close_last now (history_of ex) @ [phaseEntry (get upd ''fase'') now]
      else history_of ex)"
  unfolding history_of_def applyUpdate_history[OF assms]
  by (simp add: hist_seq_JArr hist_seq_falsy history_of_def)

lemma applyUpdate_locationHistory_seq:
  assumes res: "applyUpdate env ex upd files pid now = Inr r"
    and nk: "''locationHistory'' \<notin> dom upd"
  shows "locationHistory_of r = locationHistory_of ex
     \<or> (\<exists>e. locationHistory_of r = close_last now (locationHistory_of ex) @ [e])"
proof -
  from res obtain e1 u1 e2 where
    b1: "trackPhaseChange (logHistory_of upd) (ensureHistories ex) (parseNumericFields env upd) now = Inr e1" and
    b2: "decodeLocation env (parseNumericFields env upd) = Inr u1" and
    b3: "trackLocationChange (logHistory_of upd) e1 u1 now = Inr e2" and
    b4: "mergeProcess e2 u1 files pid = Inr r"
    by (rule applyUpdateE)
  have "dom u1 = dom upd"
    using decodeLocation_dom[OF b2] by (simp add: parseNumericFields_dom)
  with nk have u1: "u1 ''locationHistory'' = None" by auto
  have "r ''locationHistory'' = (e2 ++ u1) ''locationHistory''"
    by (rule mergeProcess_other[OF b4]) simp_all
  also have "\<dots> = e2 ''locationHistory''" using u1 by (simp add: map_add_def)
  finally have r: "get r ''locationHistory'' = get e2 ''locationHistory''" by (rule get_cong_key)
  have "e1 ''locationHistory'' = ensureHistories ex ''locationHistory''"
    by (rule trackPhaseChange_other[OF b1]) simp
  then have "get e1 ''locationHistory'' = get (ensureHistories ex) ''locationHistory''"
    by (rule get_cong_key)
  then have e1: "hist_seq (get e1 ''locationHistory'') = locationHistory_of ex"
    by (simp add: ensureHistories_locationHistory hist_seq_ensured locationHistory_of_def)
  from trackLocationChange_seq[OF b3] show ?thesis
  proof
    assume "get e2 ''locationHistory'' = get e1 ''locationHistory''"
    with r e1 show ?thesis by (simp add: locationHistory_of_def)
  next
    assume "\<exists>xs e. get e1 ''locationHistory'' = JArr xs
           \<and> get e2 ''locationHistory'' = JArr (close_last now xs @ [e])"
    then obtain xs e where x: "get e1 ''locationHistory'' = JArr xs"
      and y: "get e2 ''locationHistory'' = JArr (close_last now xs @ [e])" by blast
    from x e1 have "locationHistory_of ex = xs" by (simp add: hist_seq_JArr)
    with r y have "locationHistory_of r = close_last now (locationHistory_of ex) @ [e]"
      by (simp add: locationHistory_of_def hist_seq_JArr)
    then show ?thesis by blast
  qed
qed

lemma applyUpdate_extends:
  assumes "applyUpdate env ex upd files pid now = Inr r"
    and "''history'' \<notin> dom upd" and "''locationHistory'' \<notin> dom upd"
  shows "extends (history_of ex) (history_of r)"
    and "extends (locationHistory_of ex) (locationHistory_of r)"
  using applyUpdate_history_of[OF assms(1,2)] applyUpdate_locationHistory_seq[OF assms(1,3)]
  by (auto simp: extends_refl extends_close_append)








subsection \<open>Runs on the concrete inputs, and the merge\<close>

lemma open_interval_nonempty: "open_interval xs \<Longrightarrow> xs \<noteq> []"
  by (simp add: open_interval_def)

lemma process_example_wellFormed: "wellFormed process_example"
  by (simp add: wellFormed_def history_of_def locationHistory_of_def hist_seq_def
      process_example_def get_def field_def phaseEntry_def locationEntry_def)

lemma process_example_open:
  "open_interval (history_of process_example)"
  "open_interval (locationHistory_of process_example)"
  by (simp_all add: open_interval_def open_entry_def history_of_def locationHistory_of_def
      hist_seq_def process_example_def get_def field_def phaseEntry_def locationEntry_def)

lemmas handler_defs = applyUpdate_def ensureHistories_def parseNumericFields_def
  logHistory_of_def trackPhaseChange_def decodeLocation_def trackLocationChange_def
  locationDiffers_def getprop_def field_def mergeProcess_def existingAttachments_def
  newAttachments_def get_def Let_def close_last_def env_example_def

lemma override_run:
  "result_field (applyUpdate env_example process_example update_override None (JNum 1) ''t1'')
     ''history'' = Inr (JArr [])"
  by (simp add: handler_defs result_field_def process_example_def update_override_def)

lemma review_run:
  "\<exists>r. applyUpdate env_example process_example update_review None (JNum 1) ''t1'' = Inr r"
  by (simp add: handler_defs process_example_def update_review_def)

lemma review_bare_run:
  "\<exists>r. applyUpdate env_example bare_example update_review None (JNum 1) ''t1'' = Inr r"
  by (simp add: handler_defs bare_example_def update_review_def)

lemma applyUpdate_locationHistory_gated:
  assumes res: "applyUpdate env ex upd files pid now = Inr r"
    and nk: "''locationHistory'' \<notin> dom upd"
    and off: "\<not> logHistory_of upd"
  shows "get r ''locationHistory'' =
     (if truthy (get ex ''locationHistory'') then get ex ''locationHistory'' else JArr [])"
proof -
  from res obtain e1 u1 e2 where
    b1: "trackPhaseChange (logHistory_of upd) (ensureHistories ex) (parseNumericFields env upd) now = Inr e1" and
    b2: "decodeLocation env (parseNumericFields env upd) = Inr u1" and
    b3: "trackLocationChange (logHistory_of upd) e1 u1 now = Inr e2" and
    b4: "mergeProcess e2 u1 files pid = Inr r"
    by (rule applyUpdateE)
  have "dom u1 = dom upd"
    using decodeLocation_dom[OF b2] by (simp add: parseNumericFields_dom)
  with nk have u1: "u1 ''locationHistory'' = None" by auto
  from b3 off have e2: "e2 = e1" by (simp add: trackLocationChange_def Let_def)
  have "r ''locationHistory'' = (e2 ++ u1) ''locationHistory''"
    by (rule mergeProcess_other[OF b4]) simp_all
  also have "\<dots> = e1 ''locationHistory''" using u1 e2 by (simp add: map_add_def)
  also have "\<dots> = ensureHistories ex ''locationHistory''"
    by (rule trackPhaseChange_other[OF b1]) simp
  finally have "get r ''locationHistory'' = get (ensureHistories ex) ''locationHistory''"
    by (rule get_cong_key)
  then show ?thesis by (simp add: ensureHistories_locationHistory)
qed

lemma applyUpdate_merge:
  assumes res: "applyUpdate env ex upd files pid now = Inr r"
  shows "r ''id'' = Some pid"
    and "k \<in> dom upd \<Longrightarrow> k \<noteq> ''id'' \<Longrightarrow> k \<noteq> ''attachments'' \<Longrightarrow> k \<noteq> ''value''
          \<Longrightarrow> k \<noteq> ''purchasedValue'' \<Longrightarrow> k \<noteq> ''location'' \<Longrightarrow> r k = upd k"
    and "''value'' \<in> dom upd \<Longrightarrow> get r ''value'' =
          (if truthy (get upd ''value'') then parseFloat env (get upd ''value'')
           else get upd ''value'')"
    and "''purchasedValue'' \<in> dom upd \<Longrightarrow> get r ''purchasedValue'' =
          (if truthy (get upd ''purchasedValue'') then parseFloat env (get upd ''purchasedValue'')
           else get upd ''purchasedValue'')"
    and "''location'' \<in> dom upd \<Longrightarrow> get r ''location'' = newLocation_of env upd"
    and "k \<notin> dom upd \<Longrightarrow> k \<noteq> ''id'' \<Longrightarrow> k \<noteq> ''attachments'' \<Longrightarrow> k \<noteq> ''history''
          \<Longrightarrow> k \<noteq> ''locationHistory'' \<Longrightarrow> r k = ex k"
proof -
  from res obtain e1 u1 e2 where
    b1: "trackPhaseChange (logHistory_of upd) (ensureHistories ex) (parseNumericFields env upd) now = Inr e1" and
    b2: "decodeLocation env (parseNumericFields env upd) = Inr u1" and
    b3: "trackLocationChange (logHistory_of upd) e1 u1 now = Inr e2" and
    b4: "mergeProcess e2 u1 files pid = Inr r"
    by (rule applyUpdateE)
  have dom: "dom u1 = dom upd"
    using decodeLocation_dom[OF b2] by (simp add: parseNumericFields_dom)
  from b4 show "r ''id'' = Some pid"
    by (auto simp: mergeProcess_def split: sum.splits)
  have in_upd: "r k = u1 k" if "k \<in> dom upd" "k \<noteq> ''id''" "k \<noteq> ''attachments''" for k
  proof -
    from that dom have "k \<in> dom u1" by simp
    moreover have "r k = (e2 ++ u1) k" by (rule mergeProcess_other[OF b4]) (use that in simp_all)
    ultimately show ?thesis by (auto simp: map_add_def split: option.splits)
  qed
  show "r k = upd k" if "k \<in> dom upd" "k \<noteq> ''id''" "k \<noteq> ''attachments''" "k \<noteq> ''value''"
      "k \<noteq> ''purchasedValue''" "k \<noteq> ''location''"
    using in_upd[OF that(1,2,3)] decodeLocation_other[OF b2 that(6)]
      parseNumericFields_other[OF that(4,5), of env upd]
    by simp
  have v: "u1 ''value'' = parseNumericFields env upd ''value''"
    by (rule decodeLocation_other[OF b2]) simp
  show "get r ''value'' =
          (if truthy (get upd ''value'') then parseFloat env (get upd ''value'')
           else get upd ''value'')" if "''value'' \<in> dom upd"
  proof -
    from in_upd[OF that] have "r ''value'' = u1 ''value''" by simp
    with v have "get r ''value'' = get (parseNumericFields env upd) ''value''"
      by (simp add: get_def)
    then show ?thesis by (simp add: parseNumericFields_value)
  qed
  have pv: "u1 ''purchasedValue'' = parseNumericFields env upd ''purchasedValue''"
    by (rule decodeLocation_other[OF b2]) simp
  show "get r ''purchasedValue'' =
          (if truthy (get upd ''purchasedValue'') then parseFloat env (get upd ''purchasedValue'')
           else get upd ''purchasedValue'')" if "''purchasedValue'' \<in> dom upd"
  proof -
    from in_upd[OF that] have "r ''purchasedValue'' = u1 ''purchasedValue''" by simp
    with pv have "get r ''purchasedValue'' = get (parseNumericFields env upd) ''purchasedValue''"
      by (simp add: get_def)
    then show ?thesis by (simp add: parseNumericFields_purchasedValue)
  qed
  show "get r ''location'' = newLocation_of env upd" if "''location'' \<in> dom upd"
  proof -
    from in_upd[OF that] have "r ''location'' = u1 ''location''" by simp
    then have "get r ''location'' = get u1 ''location''" by (rule get_cong_key)
    with decodeLocation_location[OF b2] show ?thesis
      by (simp add: newLocation_of_parseNumericFields)
  qed
  show "r k = ex k" if "k \<notin> dom upd" "k \<noteq> ''id''" "k \<noteq> ''attachments''" "k \<noteq> ''history''"
      "k \<noteq> ''locationHistory''"
  proof -
    from that dom have "u1 k = None" by auto
    moreover have "r k = (e2 ++ u1) k" by (rule mergeProcess_other[OF b4]) (use that in simp_all)
    ultimately have "r k = e2 k" by (simp add: map_add_def)
    also have "\<dots> = e1 k" by (rule trackLocationChange_other[OF b3]) (use that in simp)
    also have "\<dots> = ensureHistories ex k" by (rule trackPhaseChange_other[OF b1]) (use that in simp)
    also have "\<dots> = ex k" using that by (simp add: ensureHistories_other)
    finally show ?thesis .
  qed
qed

lemma silent_run:
  "\<exists>r. applyUpdate env_example process_example update_silent None (JNum 1) ''t1'' = Inr r"
  by (simp add: handler_defs process_example_def update_silent_def)

lemma silent_override_run:
  "result_field (applyUpdate env_example process_example update_silent_override None (JNum 1) ''t1'')
     ''history'' = Inr (JArr [])"
  by (simp add: handler_defs result_field_def process_example_def update_silent_override_def)

lemma applyUpdates_append:
  "applyUpdates env pid stored (rs @ rs') = applyUpdates env pid (applyUpdates env pid stored rs) rs'"
  by (induction rs arbitrary: stored) simp_all

lemma applyUpdates_extends:
  assumes "\<forall>c \<in> set rs. ''history'' \<notin> dom (request_body c)
              \<and> ''locationHistory'' \<notin> dom (request_body c)"
  shows "extends (history_of stored) (history_of (applyUpdates env pid stored rs))
     \<and> extends (locationHistory_of stored) (locationHistory_of (applyUpdates env pid stored rs))"
  using assms
proof (induction rs arbitrary: stored)
  case Nil
  then show ?case by (simp add: extends_refl)
next
  case (Cons c rs)
  define next_stored where "next_stored =
     (case applyUpdate env stored (request_body c) (request_files c) pid (request_now c) of
        Inl e \<Rightarrow> stored | Inr p \<Rightarrow> p)"
  have step: "extends (history_of stored) (history_of next_stored)
     \<and> extends (locationHistory_of stored) (locationHistory_of next_stored)"
  proof (cases "applyUpdate env stored (request_body c) (request_files c) pid (request_now c)")
    case (Inl e)
    then show ?thesis by (simp add: next_stored_def extends_refl)
  next
    case (Inr p)
    from Cons.prems have "''history'' \<notin> dom (request_body c)"
      "''locationHistory'' \<notin> dom (request_body c)" by simp_all
    from applyUpdate_extends[OF Inr this] Inr show ?thesis by (simp add: next_stored_def)
  qed
  from Cons.prems have "\<forall>c \<in> set rs. ''history'' \<notin> dom (request_body c)
              \<and> ''locationHistory'' \<notin> dom (request_body c)" by simp
  from Cons.IH[OF this, of next_stored] step show ?case
    by (auto simp: next_stored_def intro: extends_trans)
qed

lemma override_sequence_run:
  "history_of (applyUpdates env_example (JNum 1) process_example [request_override]) = []"
  by (simp add: handler_defs history_of_def hist_seq_def request_override_def
      process_example_def update_override_def)

subsection \<open>The POST handlers, and more runs\<close>




lemma bare_move_throws:
  "applyUpdate env_example bare_example update_move None (JNum 1) ''t1'' = Inl TypeError"
  by (simp add: handler_defs bare_example_def update_move_def)

lemma seedLocationHistory_other:
  "seedLocationHistory p now = Inr p' \<Longrightarrow> k \<noteq> ''locationHistory'' \<Longrightarrow> p' k = p k"
  by (auto simp: seedLocationHistory_def split: sum.splits)

lemma createProcess_value:
  assumes "createProcess env processes body files id_now now = Inr (processes', np)"
  shows "get np ''value'' = parseFloat env (falsy_or (get body ''value'') (JNum 0))"
    and "get np ''purchasedValue'' = parseFloat env (falsy_or (get body ''purchasedValue'') (JNum 0))"
proof -
  define n3 where "n3 = body(''id'' \<mapsto> JNum (of_int id_now),
     ''value'' \<mapsto> parseFloat env (falsy_or (get body ''value'') (JNum 0)),
     ''purchasedValue'' \<mapsto> parseFloat env (falsy_or (get body ''purchasedValue'') (JNum 0)))"
  from assms obtain n4 where
    d: "decodeLocation env n3 = Inr n4" and
    s: "seedLocationHistory (n4(''attachments'' \<mapsto> JArr (newAttachments files),
            ''creationDate'' \<mapsto> JStr now,
            ''history'' \<mapsto> JArr [phaseEntry (get n4 ''fase'') now])) now = Inr np"
    by (auto simp: createProcess_def Let_def n3_def get_fun_upd split: sum.splits)
  have "np ''value'' = n4 ''value''"
    using seedLocationHistory_other[OF s, of "''value''"] by simp
  also have "\<dots> = n3 ''value''" by (rule decodeLocation_other[OF d]) simp
  finally show "get np ''value'' = parseFloat env (falsy_or (get body ''value'') (JNum 0))"
    by (simp add: get_def n3_def)
  have "np ''purchasedValue'' = n4 ''purchasedValue''"
    using seedLocationHistory_other[OF s, of "''purchasedValue''"] by simp
  also have "\<dots> = n3 ''purchasedValue''" by (rule decodeLocation_other[OF d]) simp
  finally show "get np ''purchasedValue''
      = parseFloat env (falsy_or (get body ''purchasedValue'') (JNum 0))"
    by (simp add: get_def n3_def)
qed

lemma createProcess_server_js_value:
  assumes "createProcess_server_js env processes body files id_now now = Inr (processes', np)"
  shows "get np ''value'' = parseFloat env (get body ''value'')"
proof -
  define n2 where "n2 = body(''id'' \<mapsto> JNum (of_int id_now),
     ''value'' \<mapsto> parseFloat env (get body ''value''))"
  from assms obtain n4 where
    d: "decodeLocation env n2 = Inr n4" and
    s: "seedLocationHistory (n4(''attachments'' \<mapsto> JArr (newAttachments files),
            ''creationDate'' \<mapsto> JStr now,
            ''history'' \<mapsto> JArr [phaseEntry (get n4 ''fase'') now])) now = Inr np"
    by (auto simp: createProcess_server_js_def Let_def n2_def get_fun_upd split: sum.splits)
  have "np ''value'' = n4 ''value''"
    using seedLocationHistory_other[OF s, of "''value''"] by simp
  also have "\<dots> = n2 ''value''" by (rule decodeLocation_other[OF d]) simp
  finally show ?thesis by (simp add: get_def n2_def)
qed

lemma applyUpdate_value:
  assumes res: "applyUpdate env ex upd files pid now = Inr r"
  shows "get r ''value'' =
      (if truthy (get upd ''value'') then parseFloat env (get upd ''value'')
       else get (ex ++ upd) ''value'')"
    and "get r ''purchasedValue'' =
      (if truthy (get upd ''purchasedValue'') then parseFloat env (get upd ''purchasedValue'')
       else get (ex ++ upd) ''purchasedValue'')"
proof -
  have *: "get r k = (if truthy (get upd k) then v else get (ex ++ upd) k)"
    if inn: "k \<in> dom upd \<Longrightarrow> get r k = (if truthy (get upd k) then v else get upd k)"
      and out: "k \<notin> dom upd \<Longrightarrow> r k = ex k" for k v
  proof (cases "k \<in> dom upd")
    case True
    then have "get (ex ++ upd) k = get upd k" by (auto simp: get_def map_add_def)
    with inn[OF True] show ?thesis by simp
  next
    case False
    then have "get (ex ++ upd) k = get ex k" "\<not> truthy (get upd k)"
      by (auto simp: get_def map_add_def dom_def split: option.splits)
    with out[OF False] show ?thesis by (simp add: get_def)
  qed
  show "get r ''value'' =
      (if truthy (get upd ''value'') then parseFloat env (get upd ''value'')
       else get (ex ++ upd) ''value'')"
    by (rule *) (use applyUpdate_merge(3,6)[OF res] in simp_all)
  show "get r ''purchasedValue'' =
      (if truthy (get upd ''purchasedValue'') then parseFloat env (get upd ''purchasedValue'')
       else get (ex ++ upd) ''purchasedValue'')"
    by (rule *) (use applyUpdate_merge(4,6)[OF res] in simp_all)
qed

lemmas post_defs = createProcess_def createProcess_server_js_def decodeLocation_def
  seedLocationHistory_def getprop_def field_def falsy_or_def newAttachments_def get_def Let_def
  env_example_def

lemma create_run:
  "\<exists>ps np. createProcess env_example [] body_example None 1 ''t0'' = Inr (ps, np)"
  by (simp add: post_defs body_example_def)

lemma missing_value_run:
  "result_field (applyUpdate env_example process_example update_review None (JNum 1) ''t1'')
     ''value'' = Inr (JNum 5)"
  by (simp add: handler_defs result_field_def process_example_def update_review_def)

lemma empty_value_run:
  "result_field (applyUpdate env_example process_example update_empty_value None (JNum 1) ''t1'')
     ''value'' = Inr (JStr [])"
  by (simp add: handler_defs result_field_def process_example_def update_empty_value_def)

lemma server_js_missing_value_run:
  "created_field (createProcess_server_js env_example [] body_no_sector None 1 ''t0'')
     ''value'' = Inr JNaN"
  by (simp add: post_defs created_field_def body_no_sector_def)

lemma decodeLocation_fails:
  "(\<exists>e. decodeLocation env b = Inl e) = (\<exists>s. get b ''location'' = JStr s \<and> JSON_parse env s = None)"
  "(decodeLocation env b = Inl e) = (e = SyntaxError \<and> (\<exists>s. get b ''location'' = JStr s \<and> JSON_parse env s = None))"
  by (auto simp: decodeLocation_def split: jsval.splits option.splits)

lemma seedLocationHistory_cases:
  "seedLocationHistory p now =
     (if get p ''location'' = JUndefined \<or> get p ''location'' = JNull then Inl TypeError
      else Inr (p(''locationHistory'' \<mapsto>
        JArr [locationEntry (field (get p ''location'') ''sector'')
                (field (get p ''location'') ''responsible'') now])))"
  by (simp add: seedLocationHistory_def getprop_def)

lemma newLocation_of_undecodable:
  "get b ''location'' = JStr s \<Longrightarrow> JSON_parse env s = None \<Longrightarrow> newLocation_of env b = JUndefined"
  by (simp add: newLocation_of_def)

lemma createProcess_unfold:
  "createProcess env processes body files id_now now =
     (case decodeLocation env (body(''id'' \<mapsto> JNum (of_int id_now),
             ''value'' \<mapsto> parseFloat env (falsy_or (get body ''value'') (JNum 0)),
             ''purchasedValue'' \<mapsto>
               parseFloat env (falsy_or (get body ''purchasedValue'') (JNum 0)))) of
        Inl e \<Rightarrow> Inl e
      | Inr n4 \<Rightarrow>
         (case seedLocationHistory (n4(''attachments'' \<mapsto> JArr (newAttachments files),
                  ''creationDate'' \<mapsto> JStr now,
                  ''history'' \<mapsto> JArr [phaseEntry (get n4 ''fase'') now])) now of
            Inl e \<Rightarrow> Inl e
          | Inr newProcess \<Rightarrow> Inr (processes @ [JObj newProcess], newProcess)))"
  by (simp add: createProcess_def Let_def get_fun_upd split: sum.splits)

lemma createProcess_server_js_unfold:
  "createProcess_server_js env processes body files id_now now =
     (case decodeLocation env (body(''id'' \<mapsto> JNum (of_int id_now),
             ''value'' \<mapsto> parseFloat env (get body ''value''))) of
        Inl e \<Rightarrow> Inl e
      | Inr n4 \<Rightarrow>
         (case seedLocationHistory (n4(''attachments'' \<mapsto> JArr (newAttachments files),
                  ''creationDate'' \<mapsto> JStr now,
                  ''history'' \<mapsto> JArr [phaseEntry (get n4 ''fase'') now])) now of
            Inl e \<Rightarrow> Inl e
          | Inr newProcess \<Rightarrow> Inr (processes @ [JObj newProcess], newProcess)))"
  by (simp add: createProcess_server_js_def Let_def get_fun_upd split: sum.splits)

lemma post_outcome:
  assumes unf: "res =
     (case decodeLocation env n3 of
        Inl e \<Rightarrow> Inl e
      | Inr n4 \<Rightarrow>
         (case seedLocationHistory (n4(''attachments'' \<mapsto> a, ''creationDate'' \<mapsto> c,
                  ''history'' \<mapsto> h n4)) now of
            Inl e \<Rightarrow> Inl e
          | Inr newProcess \<Rightarrow> Inr (processes @ [JObj newProcess], newProcess)))"
    and loc: "get n3 ''location'' = get body ''location''"
  shows "(res = Inl SyntaxError)
           = (\<exists>s. get body ''location'' = JStr s \<and> JSON_parse env s = None)
       \<and> (res = Inl TypeError)
           = (\<not> (\<exists>s. get body ''location'' = JStr s \<and> JSON_parse env s = None)
              \<and> (newLocation_of env body = JUndefined \<or> newLocation_of env body = JNull))
       \<and> (\<exists>e. res = Inl e)
           = (newLocation_of env body = JUndefined \<or> newLocation_of env body = JNull)
       \<and> (\<forall>ps np. res = Inr (ps, np) \<longrightarrow>
           ps = processes @ [JObj np]
           \<and> get np ''locationHistory'' =
               JArr [locationEntry (field (newLocation_of env body) ''sector'')
                       (field (newLocation_of env body) ''responsible'') now])"
proof (cases "decodeLocation env n3")
  case (Inl e)
  with decodeLocation_fails(2)[of env n3 e] obtain s where
    e: "e = SyntaxError" and s: "get body ''location'' = JStr s" "JSON_parse env s = None"
    by (auto simp: loc)
  from s have "newLocation_of env body = JUndefined" by (rule newLocation_of_undecodable)
  with Inl e s show ?thesis by (auto simp: unf)
next
  case (Inr n4)
  from loc have nl: "newLocation_of env n3 = newLocation_of env body"
    by (simp add: newLocation_of_def)
  from Inr have ok: "\<not> (\<exists>s. get body ''location'' = JStr s \<and> JSON_parse env s = None)"
    using decodeLocation_fails(1)[of env n3] by (simp add: loc)
  have l: "get n4 ''location'' = newLocation_of env body"
    using decodeLocation_location[OF Inr] nl by simp
  from ok l show ?thesis
    by (auto simp: unf Inr seedLocationHistory_cases get_fun_upd)
qed

lemma no_location_facts:
  "newLocation_of env_example body_no_location = JUndefined"
  "newLocation_of env_example body_example
     = JObj (Map.empty(''sector'' \<mapsto> JStr ''A'', ''responsible'' \<mapsto> JStr ''X''))"
  "newLocation_of env_example body_no_sector = JObj Map.empty"
  by (simp_all add: newLocation_of_def body_no_location_def body_example_def body_no_sector_def
      get_def env_example_def)

lemma no_sector_run:
  "stored_after (createProcess env_example [] body_no_sector None 1 ''t0'') = Inr 1"
  "created_field (createProcess env_example [] body_no_sector None 1 ''t0'') ''locationHistory''
     = Inr (JArr [locationEntry JUndefined JUndefined ''t0''])"
  by (simp_all add: post_defs stored_after_def created_field_def body_no_sector_def)

subsection \<open>The repair script\<close>

lemma strict_eq_JStr: "strict_eq v (JStr s) = (v = JStr s)"
  by (cases v) auto

lemma ultimoHistorico_falsy: "\<not> truthy v \<Longrightarrow> ultimoHistorico js v = None"
  by (cases v) simp_all

lemma canonicalTimestamp_eq:
  "dataContratacaoISO js (field p ''contractDate'') = canonicalTimestamp js p"
  by (simp add: dataContratacaoISO_def canonicalTimestamp_def)

lemma ajustarProcesso_spec:
  assumes "ajustarProcesso js p = Inr (p', c)"
  shows "c = needsRepair js p" and "p' = (if needsRepair js p then repaired js p else p)"
  using assms
  by (auto simp: ajustarProcesso_def needsRepair_def repaired_def canonicalTimestamp_eq
        getprop_def strict_eq_JStr ultimoHistorico_falsy
      split: if_splits sum.splits option.splits)

lemma field_Contratado_obj:
  "field u ''fase'' = JStr ''Contratado'' \<Longrightarrow> \<exists>mu. u = JObj mu \<and> get mu ''fase'' = JStr ''Contratado''"
  by (cases u) (simp_all add: field_def)

lemma lastKey_not_length:
  assumes "lastKey js h = Some k" and "get h k = JObj mu"
  shows "k \<noteq> ''length''"
proof
  assume "k = ''length''"
  with assms(2) have "toNumber js (get h ''length'') = JNaN" by (simp add: toNumber_def)
  with assms(1) show False by (simp add: lastKey_def)
qed

lemma lastKey_update:
  assumes "lastKey js h = Some k" and "get h k = JObj mu"
  shows "lastKey js (h(k \<mapsto> e)) = Some k"
proof -
  from lastKey_not_length[OF assms] have "get (h(k \<mapsto> e)) ''length'' = get h ''length''"
    by (simp add: get_def)
  with assms(1) show ?thesis by (simp add: lastKey_def)
qed

lemma needsRepair_cases:
  assumes "needsRepair js p"
  obtains (array) m xs mu d where "p = JObj m" "get m ''history'' = JArr xs" "xs \<noteq> []"
      "last xs = JObj mu" "get mu ''fase'' = JStr ''Contratado''"
      "get m ''fase'' = JStr ''Contratado''" "truthy (get m ''contractDate'')"
      "canonicalTimestamp js p = Some d" "get mu ''startDate'' \<noteq> JStr d"
      "repaired js p =
         JObj (m(''history'' \<mapsto> JArr (butlast xs @ [JObj (mu(''startDate'' \<mapsto> JStr d))])))"
  | (object) m h k mu d where "p = JObj m" "get m ''history'' = JObj h" "lastKey js h = Some k"
      "get h k = JObj mu" "get mu ''fase'' = JStr ''Contratado''"
      "get m ''fase'' = JStr ''Contratado''" "truthy (get m ''contractDate'')"
      "canonicalTimestamp js p = Some d" "get mu ''startDate'' \<noteq> JStr d"
      "repaired js p =
         JObj (m(''history'' \<mapsto> JObj (h(k \<mapsto> JObj (mu(''startDate'' \<mapsto> JStr d))))))"
proof -
  from assms obtain u d where
    f: "field p ''fase'' = JStr ''Contratado''" and cd: "truthy (field p ''contractDate'')" and
    u: "ultimoHistorico js (field p ''history'') = Some u" and
    uf: "field u ''fase'' = JStr ''Contratado''" and
    d: "canonicalTimestamp js p = Some d" and
    sd: "field u ''startDate'' \<noteq> JStr d"
    by (auto simp: needsRepair_def strict_eq_JStr split: option.splits)
  from field_Contratado_obj[OF f] obtain m where p: "p = JObj m"
    and mf: "get m ''fase'' = JStr ''Contratado''" by blast
  from field_Contratado_obj[OF uf] obtain mu where mu: "u = JObj mu"
    and muf: "get mu ''fase'' = JStr ''Contratado''" by blast
  from cd p have cd': "truthy (get m ''contractDate'')" by (simp add: field_def)
  from sd mu have sd': "get mu ''startDate'' \<noteq> JStr d" by (simp add: field_def)
  from u p have u': "ultimoHistorico js (get m ''history'') = Some (JObj mu)"
    by (simp add: field_def mu)
  show ?thesis
  proof (cases "get m ''history''")
    case (JArr xs)
    with u' have ne: "xs \<noteq> []" and l: "last xs = JObj mu" by (auto split: if_splits)
    have "repaired js p =
         JObj (m(''history'' \<mapsto> JArr (butlast xs @ [JObj (mu(''startDate'' \<mapsto> JStr d))])))"
      by (simp add: repaired_def d) (simp add: p set_last_startDate_def JArr ne l set_startDate_def)
    with p JArr ne l muf mf cd' d sd' show ?thesis by (rule array)
  next
    case (JObj h)
    with u' obtain k where k: "lastKey js h = Some k" and g: "get h k = JObj mu"
      by (auto split: option.splits)
    have "repaired js p =
         JObj (m(''history'' \<mapsto> JObj (h(k \<mapsto> JObj (mu(''startDate'' \<mapsto> JStr d))))))"
      by (simp add: repaired_def d) (simp add: p set_last_startDate_def JObj k g set_startDate_def)
    with p JObj k g muf mf cd' d sd' show ?thesis by (rule object)
  next
    case (JStr s)
    with u' show ?thesis by (auto split: if_splits)
  qed (use u' in simp_all)
qed


lemma canonicalTimestamp_cong:
  "get m' ''contractDate'' = get m ''contractDate'' \<Longrightarrow>
     canonicalTimestamp js (JObj m') = canonicalTimestamp js (JObj m)"
  by (simp add: canonicalTimestamp_def field_def)

lemma ajustarProcesso_repaired:
  assumes "needsRepair js p"
  shows "ajustarProcesso js (repaired js p) = Inr (repaired js p, False)"
  using assms
proof (cases rule: needsRepair_cases)
  case (array m xs mu d)
  define m' where
    "m' = m(''history'' \<mapsto> JArr (butlast xs @ [JObj (mu(''startDate'' \<mapsto> JStr d))]))"
  have f: "get m' ''fase'' = JStr ''Contratado''"
    "get m' ''contractDate'' = get m ''contractDate''"
    "get m' ''history'' = JArr (butlast xs @ [JObj (mu(''startDate'' \<mapsto> JStr d))])"
    using array(6) by (simp_all add: m'_def get_def)
  have c: "dataContratacaoISO js (get m ''contractDate'') = Some d"
    using array(1,8) by (simp add: canonicalTimestamp_def dataContratacaoISO_def field_def)
  have e: "get (mu(''startDate'' \<mapsto> JStr d)) ''fase'' = JStr ''Contratado''"
    "get (mu(''startDate'' \<mapsto> JStr d)) ''startDate'' = JStr d"
    using array(5) by (simp_all add: get_def)
  have "ajustarProcesso js (JObj m') = Inr (JObj m', False)"
    by (simp add: ajustarProcesso_def getprop_def field_def f array(7) e c)
  then show ?thesis by (simp add: array(10) m'_def)
next
  case (object m h k mu d)
  define h' where "h' = h(k \<mapsto> JObj (mu(''startDate'' \<mapsto> JStr d)))"
  define m' where "m' = m(''history'' \<mapsto> JObj h')"
  have f: "get m' ''fase'' = JStr ''Contratado''"
    "get m' ''contractDate'' = get m ''contractDate''"
    "get m' ''history'' = JObj h'"
    using object(6) by (simp_all add: m'_def get_def)
  have c: "dataContratacaoISO js (get m ''contractDate'') = Some d"
    using object(1,8) by (simp add: canonicalTimestamp_def dataContratacaoISO_def field_def)
  have k: "lastKey js h' = Some k"
    unfolding h'_def by (rule lastKey_update[OF object(3,4)])
  have g: "get h' k = JObj (mu(''startDate'' \<mapsto> JStr d))" by (simp add: h'_def get_def)
  have e: "get (mu(''startDate'' \<mapsto> JStr d)) ''fase'' = JStr ''Contratado''"
    "get (mu(''startDate'' \<mapsto> JStr d)) ''startDate'' = JStr d"
    using object(5) by (simp_all add: get_def)
  have "ajustarProcesso js (JObj m') = Inr (JObj m', False)"
    by (simp add: ajustarProcesso_def getprop_def field_def f object(7) k g e c)
  then show ?thesis by (simp add: object(10) m'_def h'_def)
qed

lemma ajustarProcesso_idem:
  assumes "ajustarProcesso js p = Inr (p', c)"
  shows "ajustarProcesso js p' = Inr (p', False)"
proof (cases "needsRepair js p")
  case True
  with ajustarProcesso_spec[OF assms] ajustarProcesso_repaired[OF True] show ?thesis by simp
next
  case False
  with ajustarProcesso_spec[OF assms] assms show ?thesis by simp
qed

lemma same_but_last_startDate_refl: "same_but_last_startDate js h h"
  by (cases h) (simp_all add: same_but_last_startDate_def split: option.splits)

lemma repaired_frame:
  assumes "needsRepair js p"
  shows "strip ''history'' (repaired js p) = strip ''history'' p"
    and "same_but_last_startDate js (field p ''history'') (field (repaired js p) ''history'')"
    and "\<exists>d lastEntry. canonicalTimestamp js p = Some d
           \<and> ultimoHistorico js (field (repaired js p) ''history'') = Some lastEntry
           \<and> field lastEntry ''startDate'' = JStr d"
  using assms
proof (atomize (full), cases rule: needsRepair_cases)
  case (array m xs mu d)
  have h': "field (repaired js p) ''history''
      = JArr (butlast xs @ [JObj (mu(''startDate'' \<mapsto> JStr d))])"
    unfolding array(10) by (simp add: field_def get_def)
  have h: "field p ''history'' = JArr xs" by (simp add: array(1,2) field_def)
  have a: "strip ''history'' (repaired js p) = strip ''history'' p"
    unfolding array(10) by (simp add: array(1) strip_def)
  have b: "same_but_last_startDate js (field p ''history'') (field (repaired js p) ''history'')"
    unfolding h h' using array(3)
    by (simp add: same_but_last_startDate_def array(4) strip_def)
  have c: "ultimoHistorico js (field (repaired js p) ''history'')
      = Some (JObj (mu(''startDate'' \<mapsto> JStr d)))"
    unfolding h' by simp
  have "field (JObj (mu(''startDate'' \<mapsto> JStr d))) ''startDate'' = JStr d"
    by (simp add: field_def get_def)
  with a b c array(8) show "strip ''history'' (repaired js p) = strip ''history'' p \<and>
    same_but_last_startDate js (field p ''history'') (field (repaired js p) ''history'') \<and>
    (\<exists>d lastEntry. canonicalTimestamp js p = Some d
           \<and> ultimoHistorico js (field (repaired js p) ''history'') = Some lastEntry
           \<and> field lastEntry ''startDate'' = JStr d)" by blast
next
  case (object m h k mu d)
  define h' where "h' = h(k \<mapsto> JObj (mu(''startDate'' \<mapsto> JStr d)))"
  have fh': "field (repaired js p) ''history'' = JObj h'"
    unfolding object(10) by (simp add: field_def get_def h'_def)
  have fh: "field p ''history'' = JObj h" by (simp add: object(1,2) field_def)
  have a: "strip ''history'' (repaired js p) = strip ''history'' p"
    unfolding object(10) by (simp add: object(1) strip_def)
  have g: "get h' k = JObj (mu(''startDate'' \<mapsto> JStr d))" by (simp add: h'_def get_def)
  have b: "same_but_last_startDate js (field p ''history'') (field (repaired js p) ''history'')"
    unfolding fh fh'
    by (simp add: same_but_last_startDate_def object(3,4) g strip_def) (simp add: h'_def)
  have k: "lastKey js h' = Some k"
    unfolding h'_def by (rule lastKey_update[OF object(3,4)])
  have c: "ultimoHistorico js (field (repaired js p) ''history'')
      = Some (JObj (mu(''startDate'' \<mapsto> JStr d)))"
    unfolding fh' by (simp add: k g)
  have "field (JObj (mu(''startDate'' \<mapsto> JStr d))) ''startDate'' = JStr d"
    by (simp add: field_def get_def)
  with a b c object(8) show "strip ''history'' (repaired js p) = strip ''history'' p \<and>
    same_but_last_startDate js (field p ''history'') (field (repaired js p) ''history'') \<and>
    (\<exists>d lastEntry. canonicalTimestamp js p = Some d
           \<and> ultimoHistorico js (field (repaired js p) ''history'') = Some lastEntry
           \<and> field lastEntry ''startDate'' = JStr d)" by blast
qed



lemma ajustarProcessos_idem:
  "ajustarProcessos js ps k = Inr (ps', n) \<Longrightarrow> ajustarProcessos js ps' j = Inr (ps', j)"
proof (induction ps arbitrary: k ps' n j)
  case Nil
  then show ?case by simp
next
  case (Cons p ps)
  from Cons.prems obtain p' c rest' where
    one: "ajustarProcesso js p = Inr (p', c)" and
    rest: "ajustarProcessos js ps (if c then k + 1 else k) = Inr (rest', n)" and
    res: "ps' = p' # rest'"
    by (auto split: sum.splits prod.splits)
  from Cons.IH[OF rest, of j] ajustarProcesso_idem[OF one] res show ?case
    by simp
qed

lemma ajustarProcessos_rel:
  "ajustarProcessos js ps k = Inr (ps', n) \<Longrightarrow>
     list_all2 (\<lambda>p p'. \<exists>c. ajustarProcesso js p = Inr (p', c)) ps ps'"
proof (induction ps arbitrary: k ps' n)
  case Nil
  then show ?case by simp
next
  case (Cons p ps)
  from Cons.prems obtain p' c rest' where
    one: "ajustarProcesso js p = Inr (p', c)" and
    rest: "ajustarProcessos js ps (if c then k + 1 else k) = Inr (rest', n)" and
    res: "ps' = p' # rest'"
    by (auto split: sum.splits prod.splits)
  from Cons.IH[OF rest] one res show ?case by auto
qed

lemma ajustarProcesso_frame:
  assumes "ajustarProcesso js p = Inr (p', c)"
  shows "strip ''history'' p' = strip ''history'' p"
    and "same_but_last_startDate js (field p ''history'') (field p' ''history'')"
    and "\<not> needsRepair js p \<Longrightarrow> p' = p"
  using ajustarProcesso_spec[OF assms]
  by (simp_all add: repaired_frame(1,2) same_but_last_startDate_refl)

lemma field_strip: "k \<noteq> k' \<Longrightarrow> field (strip k' v) k = field v k"
  by (cases v) (simp_all add: field_def strip_def get_def)


lemma ajustarProcesso_returns:
  assumes "repairable js p"
  shows "\<exists>p' c. ajustarProcesso js p = Inr (p', c)"
proof (cases p)
  case (JObj m)
  show ?thesis
  proof (cases "strict_eq (get m ''fase'') (JStr ''Contratado'') \<and> truthy (get m ''contractDate'')
             \<and> truthy (get m ''history'')")
    case False
    then show ?thesis by (auto simp: ajustarProcesso_def getprop_def field_def JObj)
  next
    case True
    with assms JObj obtain d where "canonicalTimestamp js p = Some d"
      by (auto simp: repairable_def)
    then have d: "dataContratacaoISO js (get m ''contractDate'') = Some d"
      by (simp add: canonicalTimestamp_def dataContratacaoISO_def field_def JObj)
    from assms JObj have u: "ultimoHistorico js (get m ''history'') \<noteq> Some JUndefined"
      "ultimoHistorico js (get m ''history'') \<noteq> Some JNull"
      by (simp_all add: repairable_def)
    show ?thesis
    proof (cases "ultimoHistorico js (get m ''history'')")
      case None
      with True show ?thesis by (auto simp: ajustarProcesso_def getprop_def field_def JObj)
    next
      case (Some ultimo)
      with u have "ultimo \<noteq> JUndefined" "ultimo \<noteq> JNull" by simp_all
      with True Some d show ?thesis
        by (auto simp: ajustarProcesso_def getprop_def field_def JObj)
    qed
  qed
qed (use assms in \<open>auto simp: ajustarProcesso_def getprop_def field_def repairable_def\<close>)

lemma ajustarProcessos_returns:
  "\<forall>p \<in> set ps. repairable js p \<Longrightarrow> \<exists>ps' n. ajustarProcessos js ps k = Inr (ps', n)"
proof (induction ps arbitrary: k)
  case Nil
  then show ?case by simp
next
  case (Cons p ps)
  then obtain p' c where one: "ajustarProcesso js p = Inr (p', c)"
    using ajustarProcesso_returns[of js p] by auto
  from Cons obtain ps' n where
    "ajustarProcessos js ps (if c then k + 1 else k) = Inr (ps', n)"
    by (metis list.set_intros(2))
  with one show ?case by simp
qed

lemma ajustarDatasDeContratacao_returns:
  "\<forall>p \<in> set processes. repairable js p \<Longrightarrow>
     \<exists>processes' n. ajustarDatasDeContratacao js processes = Inr (processes', n)"
  by (simp add: ajustarDatasDeContratacao_def ajustarProcessos_returns)



lemma examples_repairable:
  "\<forall>p \<in> set repair_examples. repairable js_example p"
  by (simp add: repair_examples_def repairable_def canonicalTimestamp_def concat_text_def lastKey_def
      toNumber_def contracted_example_def arraylike_example_def process_example_def
      js_example_def field_def get_def phaseEntry_def)


lemma examples_run:
  "\<exists>ps n. ajustarDatasDeContratacao js_example repair_examples = Inr (ps, n)"
  by (rule ajustarDatasDeContratacao_returns[OF examples_repairable])

section \<open>The claims about the PUT handler\<close>

text \<open>
  C1. When both histories of the stored process have exactly one open entry, as their last
  element, and the request body has no \<^verbatim>\<open>history\<close> and no \<^verbatim>\<open>locationHistory\<close> field of its
  own, a PUT with \<^verbatim>\<open>logHistory\<close> set that returns leaves both histories of the result with
  exactly one open entry, as their last element.
\<close>

theorem open_interval_preserved:
  assumes lg: "logHistory_of upd"
    and oh: "open_interval (history_of ex)" and ol: "open_interval (locationHistory_of ex)"
    and nh: "''history'' \<notin> dom upd" and nl: "''locationHistory'' \<notin> dom upd"
    and res: "applyUpdate env ex upd files pid now = Inr r"
  shows "open_interval (history_of r) \<and> open_interval (locationHistory_of r)"
proof
  show "open_interval (history_of r)"
    unfolding applyUpdate_history_of[OF res nh]
    using oh by (simp add: open_interval_close_append open_phaseEntry)
next
  from ol have "locationHistory_of ex \<noteq> []" by (rule open_interval_nonempty)
  then have arr: "get ex ''locationHistory'' = JArr (locationHistory_of ex)"
    unfolding locationHistory_of_def by (rule hist_seq_nonempty)
  show "open_interval (locationHistory_of r)"
    unfolding locationHistory_of_def[of r] applyUpdate_locationHistory[OF res nl arr]
    using ol by (simp add: hist_seq_JArr open_interval_close_append open_locationEntry)
qed

theorem open_interval_preserved_witness:
  "logHistory_of update_review
   \<and> open_interval (history_of process_example)
   \<and> open_interval (locationHistory_of process_example)
   \<and> ''history'' \<notin> dom update_review \<and> ''locationHistory'' \<notin> dom update_review
   \<and> (\<exists>r. applyUpdate env_example process_example update_review None (JNum 1) ''t1'' = Inr r
          \<and> open_interval (history_of r) \<and> open_interval (locationHistory_of r))"
proof -
  have lg: "logHistory_of update_review"
    by (simp add: logHistory_of_def update_review_def get_def)
  have nh: "''history'' \<notin> dom update_review" and nl: "''locationHistory'' \<notin> dom update_review"
    by (simp_all add: update_review_def)
  from review_run obtain r where
    res: "applyUpdate env_example process_example update_review None (JNum 1) ''t1'' = Inr r"
    by blast
  note t = open_interval_preserved[OF lg process_example_open nh nl res]
  from lg process_example_open nh nl res t show ?thesis by blast
qed

theorem open_interval_counterexample:
  "wellFormed process_example
   \<and> open_interval (history_of process_example)
   \<and> open_interval (locationHistory_of process_example)
   \<and> logHistory_of update_override
   \<and> result_field (applyUpdate env_example process_example update_override None (JNum 1) ''t1'')
        ''history'' = Inr (JArr [])
   \<and> \<not> open_interval (hist_seq (JArr []))"
proof -
  have "logHistory_of update_override"
    by (simp add: logHistory_of_def update_override_def get_def)
  moreover have "\<not> open_interval (hist_seq (JArr []))"
    by (simp add: open_interval_def hist_seq_def)
  ultimately show ?thesis
    using process_example_wellFormed process_example_open override_run by blast
qed

text \<open>
  C2. For a PUT with \<^verbatim>\<open>logHistory\<close> set whose \<^verbatim>\<open>fase\<close> is present (truthy) and differs from
  the stored one: when the request returns and its body has no \<^verbatim>\<open>history\<close> field of its
  own, the phase history of the result is the stored one with the \<^verbatim>\<open>endDate\<close> of its last
  entry set to \<open>now\<close>, followed by the new entry \<^verbatim>\<open>{fase, startDate: now, endDate: null}\<close>;
  and on a stored process whose phase history is absent or empty, the block that tracks
  the phase does not throw and leaves the new entry alone in the history.
\<close>

theorem phase_change_appends:
  assumes lg: "logHistory_of upd"
    and present: "truthy (get upd ''fase'')"
    and differs: "\<not> strict_eq (get upd ''fase'') (get ex ''fase'')"
  shows "(''history'' \<notin> dom upd \<longrightarrow> applyUpdate env ex upd files pid now = Inr r \<longrightarrow>
            get r ''history'' =
              JArr (close_last now (history_of ex) @ [phaseEntry (get upd ''fase'') now]))
     \<and> (\<not> truthy (get ex ''history'') \<or> get ex ''history'' = JArr [] \<longrightarrow>
            trackPhaseChange (logHistory_of upd) (ensureHistories ex)
                (parseNumericFields env upd) now
              = Inr ((ensureHistories ex)(''history'' \<mapsto>
                       JArr [phaseEntry (get upd ''fase'') now])))"
proof (intro conjI impI)
  assume "''history'' \<notin> dom upd" and "applyUpdate env ex upd files pid now = Inr r"
  from applyUpdate_history[OF this(2,1)] lg present differs
  show "get r ''history'' =
      JArr (close_last now (history_of ex) @ [phaseEntry (get upd ''fase'') now])"
    by simp
next
  assume e: "\<not> truthy (get ex ''history'') \<or> get ex ''history'' = JArr []"
  have f1: "get (parseNumericFields env upd) ''fase'' = get upd ''fase''"
    by (rule get_cong_key) (simp add: parseNumericFields_other)
  have f2: "get (ensureHistories ex) ''fase'' = get ex ''fase''"
    by (rule get_cong_key) (simp add: ensureHistories_other)
  from e have h: "get (ensureHistories ex) ''history'' = JArr []"
    by (auto simp: ensureHistories_history)
  show "trackPhaseChange (logHistory_of upd) (ensureHistories ex)
                (parseNumericFields env upd) now
              = Inr ((ensureHistories ex)(''history'' \<mapsto>
                       JArr [phaseEntry (get upd ''fase'') now]))"
    using lg present differs
    by (simp add: trackPhaseChange_def f1 f2 h close_last_def)
qed

theorem phase_change_appends_witness:
  "logHistory_of update_review
   \<and> truthy (get update_review ''fase'')
   \<and> \<not> strict_eq (get update_review ''fase'') (get process_example ''fase'')
   \<and> ''history'' \<notin> dom update_review
   \<and> (\<exists>r. applyUpdate env_example process_example update_review None (JNum 1) ''t1'' = Inr r
          \<and> get r ''history'' =
              JArr [set_endDate ''t1'' (phaseEntry (JStr ''Draft'') ''t0''),
                    phaseEntry (JStr ''Review'') ''t1''])
   \<and> \<not> truthy (get bare_example ''history'')
   \<and> (\<exists>r. applyUpdate env_example bare_example update_review None (JNum 1) ''t1'' = Inr r
          \<and> get r ''history'' = JArr [phaseEntry (JStr ''Review'') ''t1''])"
proof -
  have lg: "logHistory_of update_review"
    by (simp add: logHistory_of_def update_review_def get_def)
  have f: "get update_review ''fase'' = JStr ''Review''"
    by (simp add: update_review_def get_def)
  have present: "truthy (get update_review ''fase'')" by (simp add: f)
  have d1: "\<not> strict_eq (get update_review ''fase'') (get process_example ''fase'')"
    unfolding f by (simp add: process_example_def get_def)
  have d2: "\<not> strict_eq (get update_review ''fase'') (get bare_example ''fase'')"
    unfolding f by (simp add: bare_example_def get_def)
  have nh: "''history'' \<notin> dom update_review" by (simp add: update_review_def)
  have h1: "history_of process_example = [phaseEntry (JStr ''Draft'') ''t0'']"
    by (simp add: history_of_def hist_seq_def process_example_def get_def)
  have e2: "\<not> truthy (get bare_example ''history'')"
    by (simp add: bare_example_def get_def)
  then have h2: "history_of bare_example = []"
    by (simp add: history_of_def hist_seq_falsy)
  from review_run obtain r1 where
    r1: "applyUpdate env_example process_example update_review None (JNum 1) ''t1'' = Inr r1"
    by blast
  from review_bare_run obtain r2 where
    r2: "applyUpdate env_example bare_example update_review None (JNum 1) ''t1'' = Inr r2"
    by blast
  from phase_change_appends[OF lg present d1, of env_example None "JNum 1" "''t1''" r1] nh r1
  have c1: "get r1 ''history'' =
      JArr [set_endDate ''t1'' (phaseEntry (JStr ''Draft'') ''t0''), phaseEntry (JStr ''Review'') ''t1'']"
    by (simp add: h1 f close_last_def)
  from phase_change_appends[OF lg present d2, of env_example None "JNum 1" "''t1''" r2] nh r2
  have c2: "get r2 ''history'' = JArr [phaseEntry (JStr ''Review'') ''t1'']"
    by (simp add: h2 f close_last_def)
  from lg present d1 nh r1 c1 e2 r2 c2 show ?thesis by blast
qed

theorem phase_change_counterexample:
  "logHistory_of update_override
   \<and> truthy (get update_override ''fase'')
   \<and> \<not> strict_eq (get update_override ''fase'') (get process_example ''fase'')
   \<and> history_of process_example = [phaseEntry (JStr ''Draft'') ''t0'']
   \<and> result_field (applyUpdate env_example process_example update_override None (JNum 1) ''t1'')
        ''history'' = Inr (JArr [])"
proof -
  have "logHistory_of update_override"
    by (simp add: logHistory_of_def update_override_def get_def)
  moreover have "truthy (get update_override ''fase'')"
    by (simp add: update_override_def get_def)
  moreover have "\<not> strict_eq (get update_override ''fase'') (get process_example ''fase'')"
    by (simp add: update_override_def process_example_def get_def)
  moreover have "history_of process_example = [phaseEntry (JStr ''Draft'') ''t0'']"
    by (simp add: history_of_def hist_seq_def process_example_def get_def)
  ultimately show ?thesis using override_run by blast
qed

text \<open>
  C3. A PUT without \<^verbatim>\<open>logHistory\<close> whose body has no \<^verbatim>\<open>history\<close> and no
  \<^verbatim>\<open>locationHistory\<close> field of its own, when it returns, leaves both history sequences
  as they were (a truthy history field is returned identical, an absent one as the
  empty array), whatever \<^verbatim>\<open>fase\<close> and \<^verbatim>\<open>location\<close> the body carries; and every field of
  the body other than \<^verbatim>\<open>id\<close> and \<^verbatim>\<open>attachments\<close> is in the result, \<^verbatim>\<open>value\<close> and
  \<^verbatim>\<open>purchasedValue\<close> parsed when truthy and \<^verbatim>\<open>location\<close> decoded.
\<close>

theorem gated_by_flag:
  assumes off: "\<not> logHistory_of upd"
    and nh: "''history'' \<notin> dom upd" and nl: "''locationHistory'' \<notin> dom upd"
    and res: "applyUpdate env ex upd files pid now = Inr r"
  shows "history_of r = history_of ex \<and> locationHistory_of r = locationHistory_of ex
    \<and> (truthy (get ex ''history'') \<longrightarrow> get r ''history'' = get ex ''history'')
    \<and> (truthy (get ex ''locationHistory'') \<longrightarrow>
          get r ''locationHistory'' = get ex ''locationHistory'')
    \<and> (\<forall>k \<in> dom upd. k \<noteq> ''id'' \<longrightarrow> k \<noteq> ''attachments'' \<longrightarrow> k \<noteq> ''value'' \<longrightarrow>
          k \<noteq> ''purchasedValue'' \<longrightarrow> k \<noteq> ''location'' \<longrightarrow> r k = upd k)
    \<and> (''value'' \<in> dom upd \<longrightarrow> get r ''value'' =
          (if truthy (get upd ''value'') then parseFloat env (get upd ''value'')
           else get upd ''value''))
    \<and> (''purchasedValue'' \<in> dom upd \<longrightarrow> get r ''purchasedValue'' =
          (if truthy (get upd ''purchasedValue'')
           then parseFloat env (get upd ''purchasedValue'') else get upd ''purchasedValue''))
    \<and> (''location'' \<in> dom upd \<longrightarrow> get r ''location'' = newLocation_of env upd)"
proof -
  have h: "history_of r = history_of ex"
    using applyUpdate_history_of[OF res nh] off by simp
  have l: "get r ''locationHistory'' =
     (if truthy (get ex ''locationHistory'') then get ex ''locationHistory'' else JArr [])"
    by (rule applyUpdate_locationHistory_gated[OF res nl off])
  then have l': "locationHistory_of r = locationHistory_of ex"
    by (simp add: locationHistory_of_def hist_seq_ensured)
  have hf: "truthy (get ex ''history'') \<longrightarrow> get r ''history'' = get ex ''history''"
    using applyUpdate_history[OF res nh] off by simp
  from h l' hf l applyUpdate_merge(2-5)[OF res] show ?thesis by auto
qed

theorem gated_by_flag_witness:
  "\<not> logHistory_of update_silent
   \<and> ''history'' \<notin> dom update_silent \<and> ''locationHistory'' \<notin> dom update_silent
   \<and> \<not> strict_eq (get update_silent ''fase'') (get process_example ''fase'')
   \<and> (\<exists>r. applyUpdate env_example process_example update_silent None (JNum 1) ''t1'' = Inr r
         \<and> history_of r = history_of process_example
         \<and> locationHistory_of r = locationHistory_of process_example
         \<and> r ''fase'' = Some (JStr ''Review'')
         \<and> get r ''value'' = JNum (25 / 2))"
proof -
  have off: "\<not> logHistory_of update_silent"
    by (simp add: logHistory_of_def update_silent_def get_def)
  have nh: "''history'' \<notin> dom update_silent" and nl: "''locationHistory'' \<notin> dom update_silent"
    by (simp_all add: update_silent_def)
  have d: "\<not> strict_eq (get update_silent ''fase'') (get process_example ''fase'')"
    by (simp add: update_silent_def process_example_def get_def)
  from silent_run obtain r where
    res: "applyUpdate env_example process_example update_silent None (JNum 1) ''t1'' = Inr r"
    by blast
  note t = gated_by_flag[OF off nh nl res]
  have k: "''fase'' \<in> dom update_silent" "''value'' \<in> dom update_silent"
    by (simp_all add: update_silent_def)
  from t k have "r ''fase'' = update_silent ''fase''" by simp
  then have f: "r ''fase'' = Some (JStr ''Review'')" by (simp add: update_silent_def)
  from t k have "get r ''value'' =
          (if truthy (get update_silent ''value'')
           then parseFloat env_example (get update_silent ''value'')
           else get update_silent ''value'')" by blast
  then have v: "get r ''value'' = JNum (25 / 2)"
    by (simp add: update_silent_def get_def env_example_def)
  from t have "history_of r = history_of process_example"
    "locationHistory_of r = locationHistory_of process_example" by blast+
  with off nh nl d res f v show ?thesis by blast
qed

theorem gated_by_flag_counterexample:
  "\<not> logHistory_of update_silent_override
   \<and> get process_example ''history'' = JArr [phaseEntry (JStr ''Draft'') ''t0'']
   \<and> result_field (applyUpdate env_example process_example update_silent_override None
        (JNum 1) ''t1'') ''history'' = Inr (JArr [])"
proof -
  have "\<not> logHistory_of update_silent_override"
    by (simp add: logHistory_of_def update_silent_override_def get_def)
  moreover have "get process_example ''history'' = JArr [phaseEntry (JStr ''Draft'') ''t0'']"
    by (simp add: process_example_def get_def)
  ultimately show ?thesis using silent_override_run by blast
qed

text \<open>
  C5. Along any sequence of PUT requests on one process, from any moment on which no
  request body has a \<^verbatim>\<open>history\<close> or \<^verbatim>\<open>locationHistory\<close> field of its own: neither
  history gets shorter, every entry before the one that was last at that moment stays
  identical, and that last entry changes in its \<^verbatim>\<open>endDate\<close> at most.
\<close>

theorem histories_append_only:
  assumes "\<forall>c \<in> set later. ''history'' \<notin> dom (request_body c)
              \<and> ''locationHistory'' \<notin> dom (request_body c)"
  shows "extends (history_of (applyUpdates env pid stored earlier))
           (history_of (applyUpdates env pid stored (earlier @ later)))
     \<and> extends (locationHistory_of (applyUpdates env pid stored earlier))
           (locationHistory_of (applyUpdates env pid stored (earlier @ later)))"
  unfolding applyUpdates_append by (rule applyUpdates_extends[OF assms])

theorem histories_append_only_witness:
  "''history'' \<notin> dom (request_body request_review)
   \<and> ''locationHistory'' \<notin> dom (request_body request_review)
   \<and> ''history'' \<notin> dom (request_body request_move)
   \<and> ''locationHistory'' \<notin> dom (request_body request_move)
   \<and> extends (history_of (applyUpdates env_example (JNum 1) process_example [request_review]))
        (history_of (applyUpdates env_example (JNum 1) process_example
           ([request_review] @ [request_move])))
   \<and> extends (locationHistory_of (applyUpdates env_example (JNum 1) process_example [request_review]))
        (locationHistory_of (applyUpdates env_example (JNum 1) process_example
           ([request_review] @ [request_move])))"
proof -
  have a: "''history'' \<notin> dom (request_body request_review)"
    "''locationHistory'' \<notin> dom (request_body request_review)"
    by (simp_all add: request_review_def update_review_def)
  have b: "''history'' \<notin> dom (request_body request_move)"
    "''locationHistory'' \<notin> dom (request_body request_move)"
    by (simp_all add: request_move_def update_move_def)
  from b have "\<forall>c \<in> set [request_move]. ''history'' \<notin> dom (request_body c)
              \<and> ''locationHistory'' \<notin> dom (request_body c)" by simp
  note t = histories_append_only[OF this, of env_example "JNum 1" process_example "[request_review]"]
  from a b t show ?thesis by blast
qed

theorem histories_append_only_counterexample:
  "wellFormed process_example
   \<and> length (history_of process_example) = 1
   \<and> length (history_of (applyUpdates env_example (JNum 1) process_example [request_override])) = 0"
proof -
  have "length (history_of process_example) = 1"
    by (simp add: history_of_def hist_seq_def process_example_def get_def)
  with process_example_wellFormed override_sequence_run show ?thesis by simp
qed




text \<open>
  C8. The POST handler of \<^verbatim>\<open>part_000\<close> stores \<^verbatim>\<open>parseFloat\<close> of \<^verbatim>\<open>value\<close> and of
  \<^verbatim>\<open>purchasedValue\<close>, with the number 0 in the place of a missing or empty field; the POST
  handler of \<^verbatim>\<open>server.js\<close> stores \<^verbatim>\<open>parseFloat\<close> of \<^verbatim>\<open>value\<close> as it arrived. The PUT handler
  parses a \<^verbatim>\<open>value\<close> or \<^verbatim>\<open>purchasedValue\<close> of the body only when it is truthy; otherwise
  the result has the field of the plain merge: the body's own (empty) value when the
  body has the field, the stored one when it has not.
\<close>

theorem numeric_fields_parsed:
  "(createProcess env processes body files id_now now = Inr (processes', np) \<longrightarrow>
       get np ''value'' = parseFloat env (falsy_or (get body ''value'') (JNum 0))
     \<and> get np ''purchasedValue''
         = parseFloat env (falsy_or (get body ''purchasedValue'') (JNum 0)))
   \<and> (createProcess_server_js env processes body files id_now now = Inr (processes', np) \<longrightarrow>
       get np ''value'' = parseFloat env (get body ''value''))
   \<and> (applyUpdate env ex upd files pid now = Inr r \<longrightarrow>
       get r ''value'' =
         (if truthy (get upd ''value'') then parseFloat env (get upd ''value'')
          else get (ex ++ upd) ''value'')
     \<and> get r ''purchasedValue'' =
         (if truthy (get upd ''purchasedValue'')
          then parseFloat env (get upd ''purchasedValue'')
          else get (ex ++ upd) ''purchasedValue''))"
proof (intro conjI impI)
  assume c: "createProcess env processes body files id_now now = Inr (processes', np)"
  show "get np ''value'' = parseFloat env (falsy_or (get body ''value'') (JNum 0))"
    by (rule createProcess_value(1)[OF c])
  show "get np ''purchasedValue''
         = parseFloat env (falsy_or (get body ''purchasedValue'') (JNum 0))"
    by (rule createProcess_value(2)[OF c])
next
  assume c: "createProcess_server_js env processes body files id_now now = Inr (processes', np)"
  show "get np ''value'' = parseFloat env (get body ''value'')"
    by (rule createProcess_server_js_value[OF c])
next
  assume u: "applyUpdate env ex upd files pid now = Inr r"
  show "get r ''value'' =
         (if truthy (get upd ''value'') then parseFloat env (get upd ''value'')
          else get (ex ++ upd) ''value'')"
    by (rule applyUpdate_value(1)[OF u])
  show "get r ''purchasedValue'' =
         (if truthy (get upd ''purchasedValue'')
          then parseFloat env (get upd ''purchasedValue'')
          else get (ex ++ upd) ''purchasedValue'')"
    by (rule applyUpdate_value(2)[OF u])
qed

theorem numeric_fields_parsed_witness:
  "(\<exists>ps np. createProcess env_example [] body_example None 1 ''t0'' = Inr (ps, np)
       \<and> get np ''value'' = JNum (25 / 2) \<and> get np ''purchasedValue'' = JNum 0)
   \<and> (\<exists>r. applyUpdate env_example process_example update_silent None (JNum 1) ''t1'' = Inr r
       \<and> get r ''value'' = JNum (25 / 2) \<and> get r ''purchasedValue'' = JUndefined)"
proof -
  from create_run obtain ps np where
    c: "createProcess env_example [] body_example None 1 ''t0'' = Inr (ps, np)" by blast
  from silent_run obtain r where
    u: "applyUpdate env_example process_example update_silent None (JNum 1) ''t1'' = Inr r"
    by blast
  note t = numeric_fields_parsed[of env_example "[]" body_example None 1 "''t0''" ps np]
  note t' = numeric_fields_parsed[of env_example _ _ None _ "''t1''" _ _
      process_example update_silent "JNum 1" r]
  from t c have "get np ''value''
      = parseFloat env_example (falsy_or (get body_example ''value'') (JNum 0))"
    "get np ''purchasedValue''
      = parseFloat env_example (falsy_or (get body_example ''purchasedValue'') (JNum 0))"
    by blast+
  then have c': "get np ''value'' = JNum (25 / 2)" "get np ''purchasedValue'' = JNum 0"
    by (simp_all add: body_example_def get_def falsy_or_def env_example_def)
  from t' u have "get r ''value'' =
         (if truthy (get update_silent ''value'')
          then parseFloat env_example (get update_silent ''value'')
          else get (process_example ++ update_silent) ''value'')"
    "get r ''purchasedValue'' =
         (if truthy (get update_silent ''purchasedValue'')
          then parseFloat env_example (get update_silent ''purchasedValue'')
          else get (process_example ++ update_silent) ''purchasedValue'')"
    by blast+
  then have u': "get r ''value'' = JNum (25 / 2)" "get r ''purchasedValue'' = JUndefined"
    by (simp_all add: update_silent_def process_example_def get_def env_example_def map_add_def)
  from c c' u u' show ?thesis by blast
qed

theorem numeric_fields_counterexample:
  "''value'' \<notin> dom update_review
   \<and> result_field (applyUpdate env_example process_example update_review None (JNum 1) ''t1'')
        ''value'' = Inr (JNum 5)
   \<and> get update_empty_value ''value'' = JStr []
   \<and> result_field (applyUpdate env_example process_example update_empty_value None (JNum 1) ''t1'')
        ''value'' = Inr (JStr [])
   \<and> ''value'' \<notin> dom body_no_sector
   \<and> created_field (createProcess_server_js env_example [] body_no_sector None 1 ''t0'')
        ''value'' = Inr JNaN"
proof -
  have "''value'' \<notin> dom update_review" by (simp add: update_review_def)
  moreover have "''value'' \<notin> dom body_no_sector" by (simp add: body_no_sector_def)
  moreover have "get update_empty_value ''value'' = JStr []"
    by (simp add: update_empty_value_def get_def)
  ultimately show ?thesis
    using missing_value_run empty_value_run server_js_missing_value_run by blast
qed

section \<open>The claim about the POST handlers\<close>

text \<open>
  C9. Both POST handlers fail, with nothing stored, exactly when the location of the body,
  decoded when it is text, is \<^verbatim>\<open>undefined\<close> or \<^verbatim>\<open>null\<close>: the body has no location, or a
  \<^verbatim>\<open>null\<close> one, or a text that \<^verbatim>\<open>JSON.parse\<close> rejects (a SyntaxError, for exactly those
  texts) or turns into \<^verbatim>\<open>null\<close>. With any other location the process is stored, appended
  to the array, its location history seeded with the \<^verbatim>\<open>sector\<close> and \<^verbatim>\<open>responsible\<close> read
  off that value, \<^verbatim>\<open>undefined\<close> where it has none.
\<close>

theorem createProcess_needs_location:
  "((\<exists>e. createProcess env processes body files id_now now = Inl e)
      = (newLocation_of env body = JUndefined \<or> newLocation_of env body = JNull))
   \<and> ((createProcess env processes body files id_now now = Inl SyntaxError)
      = (\<exists>s. get body ''location'' = JStr s \<and> JSON_parse env s = None))
   \<and> (\<forall>ps np. createProcess env processes body files id_now now = Inr (ps, np) \<longrightarrow>
         ps = processes @ [JObj np]
         \<and> get np ''locationHistory'' =
             JArr [locationEntry (field (newLocation_of env body) ''sector'')
                     (field (newLocation_of env body) ''responsible'') now])
   \<and> ((\<exists>e. createProcess_server_js env processes body files id_now now = Inl e)
      = (newLocation_of env body = JUndefined \<or> newLocation_of env body = JNull))"
proof -
  have l1: "get (body(''id'' \<mapsto> JNum (of_int id_now),
             ''value'' \<mapsto> parseFloat env (falsy_or (get body ''value'') (JNum 0)),
             ''purchasedValue'' \<mapsto>
               parseFloat env (falsy_or (get body ''purchasedValue'') (JNum 0)))) ''location''
        = get body ''location''"
    by (simp add: get_def)
  have l2: "get (body(''id'' \<mapsto> JNum (of_int id_now),
             ''value'' \<mapsto> parseFloat env (get body ''value''))) ''location''
        = get body ''location''"
    by (simp add: get_def)
  from post_outcome[OF createProcess_unfold l1] post_outcome[OF createProcess_server_js_unfold l2]
  show ?thesis by blast
qed

theorem createProcess_needs_location_witness:
  "newLocation_of env_example body_no_location = JUndefined
   \<and> (\<exists>e. createProcess env_example [] body_no_location None 1 ''t0'' = Inl e)
   \<and> (\<exists>ps np. createProcess env_example [] body_example None 1 ''t0'' = Inr (ps, np)
         \<and> ps = [] @ [JObj np]
         \<and> get np ''locationHistory'' = JArr [locationEntry (JStr ''A'') (JStr ''X'') ''t0''])"
proof -
  note t1 = createProcess_needs_location[of env_example "[]" body_no_location None 1 "''t0''"]
  from t1 no_location_facts(1)
  have a: "\<exists>e. createProcess env_example [] body_no_location None 1 ''t0'' = Inl e" by blast
  note t2 = createProcess_needs_location[of env_example "[]" body_example None 1 "''t0''"]
  from create_run obtain ps np where
    c: "createProcess env_example [] body_example None 1 ''t0'' = Inr (ps, np)" by blast
  with t2 have "ps = [] @ [JObj np]"
    "get np ''locationHistory'' =
       JArr [locationEntry (field (newLocation_of env_example body_example) ''sector'')
               (field (newLocation_of env_example body_example) ''responsible'') ''t0'']"
    by blast+
  then have "ps = [] @ [JObj np]"
    "get np ''locationHistory'' = JArr [locationEntry (JStr ''A'') (JStr ''X'') ''t0'']"
    by (simp_all add: no_location_facts(2) field_def get_def)
  with c a no_location_facts(1) show ?thesis by blast
qed

theorem createProcess_location_counterexample:
  "get body_no_sector ''location'' = JStr ''{}''
   \<and> newLocation_of env_example body_no_sector = JObj Map.empty
   \<and> field (JObj Map.empty) ''sector'' = JUndefined
   \<and> field (JObj Map.empty) ''responsible'' = JUndefined
   \<and> stored_after (createProcess env_example [] body_no_sector None 1 ''t0'') = Inr 1
   \<and> created_field (createProcess env_example [] body_no_sector None 1 ''t0'') ''locationHistory''
        = Inr (JArr [locationEntry JUndefined JUndefined ''t0''])"
proof -
  have "get body_no_sector ''location'' = JStr ''{}''"
    by (simp add: body_no_sector_def get_def)
  moreover have "field (JObj Map.empty) ''sector'' = JUndefined"
    "field (JObj Map.empty) ''responsible'' = JUndefined"
    by (simp_all add: field_def get_def)
  ultimately show ?thesis using no_location_facts(3) no_sector_run by blast
qed

section \<open>The claims about the repair script\<close>



text \<open>
  C7. A second run on the output of a first run counts no correction and returns the
  processes as it found them.
\<close>

theorem repair_idempotent:
  assumes "ajustarDatasDeContratacao js processes = Inr (processes', correctedCount)"
  shows "ajustarDatasDeContratacao js processes' = Inr (processes', 0)"
  using assms ajustarProcessos_idem[of js processes 0 processes' correctedCount 0]
  by (simp add: ajustarDatasDeContratacao_def)

theorem repair_idempotent_witness:
  "\<exists>ps n. ajustarDatasDeContratacao js_example repair_examples = Inr (ps, n)
     \<and> ajustarDatasDeContratacao js_example ps = Inr (ps, 0)"
proof -
  from examples_run obtain ps n where
    run: "ajustarDatasDeContratacao js_example repair_examples = Inr (ps, n)" by blast
  from run repair_idempotent[OF run] show ?thesis by blast
qed

text \<open>
  C10. The script leaves the number and the order of the processes as they are; at every
  position the process keeps every field other than \<^verbatim>\<open>history\<close> (its \<^verbatim>\<open>id\<close> among them),
  the history keeps its length and every entry before the last, and the last entry keeps
  every field other than \<^verbatim>\<open>startDate\<close>; a process that does not need the repair is
  returned identical.
\<close>

theorem repair_frame:
  assumes "ajustarDatasDeContratacao js processes = Inr (processes', correctedCount)"
  shows "length processes' = length processes
    \<and> (\<forall>i < length processes.
          strip ''history'' (processes' ! i) = strip ''history'' (processes ! i)
          \<and> field (processes' ! i) ''id'' = field (processes ! i) ''id''
          \<and> same_but_last_startDate js (field (processes ! i) ''history'')
               (field (processes' ! i) ''history'')
          \<and> (needsRepair js (processes ! i) \<or> processes' ! i = processes ! i))"
proof -
  from assms have rel:
    "list_all2 (\<lambda>p p'. \<exists>c. ajustarProcesso js p = Inr (p', c)) processes processes'"
    by (simp add: ajustarDatasDeContratacao_def ajustarProcessos_rel)
  then have len: "length processes' = length processes"
    by (simp add: list_all2_lengthD)
  have "strip ''history'' (processes' ! i) = strip ''history'' (processes ! i)
          \<and> field (processes' ! i) ''id'' = field (processes ! i) ''id''
          \<and> same_but_last_startDate js (field (processes ! i) ''history'')
               (field (processes' ! i) ''history'')
          \<and> (needsRepair js (processes ! i) \<or> processes' ! i = processes ! i)"
    if "i < length processes" for i
  proof -
    from rel that obtain c where
      one: "ajustarProcesso js (processes ! i) = Inr (processes' ! i, c)"
      by (auto dest: list_all2_nthD)
    note f = ajustarProcesso_frame[OF one]
    have "field (strip ''history'' (processes' ! i)) ''id''
        = field (strip ''history'' (processes ! i)) ''id''"
      by (simp only: f(1))
    then have "field (processes' ! i) ''id'' = field (processes ! i) ''id''"
      by (simp add: field_strip)
    with f show ?thesis by blast
  qed
  with len show ?thesis by blast
qed

theorem repair_frame_witness:
  "\<exists>ps n. ajustarDatasDeContratacao js_example repair_examples = Inr (ps, n)
     \<and> length ps = length repair_examples
     \<and> strip ''history'' (ps ! 1) = strip ''history'' (repair_examples ! 1)
     \<and> field (ps ! 1) ''id'' = field (repair_examples ! 1) ''id''
     \<and> same_but_last_startDate js_example (field (repair_examples ! 1) ''history'')
          (field (ps ! 1) ''history'')"
proof -
  from examples_run obtain ps n where
    run: "ajustarDatasDeContratacao js_example repair_examples = Inr (ps, n)" by blast
  note t = repair_frame[OF run]
  have "(1::nat) < length repair_examples" by (simp add: repair_examples_def)
  with t have "length ps = length repair_examples
     \<and> strip ''history'' (ps ! 1) = strip ''history'' (repair_examples ! 1)
     \<and> field (ps ! 1) ''id'' = field (repair_examples ! 1) ''id''
     \<and> same_but_last_startDate js_example (field (repair_examples ! 1) ''history'')
          (field (ps ! 1) ''history'')"
    by blast
  with run show ?thesis by blast
qed

end
